theory Spec2Isabelle
  imports Complex_Main
begin

section \<open>Numeric values\<close>

text \<open>
  NumPy arrays of \<open>float64\<close> hold finite numbers, the two infinities and NaN.
  The model keeps the three special values, because the code under study produces them on
  purpose or by accident (\<open>0/0\<close>, \<open>x/0\<close>, \<open>sqrt\<close> of a negative number), and idealises a
  finite double as the real number it denotes: rounding, overflow and underflow of finite
  arithmetic and the sign of zero are not modelled. Where a property would depend on
  that, the arithmetic is a parameter of the model instead, and the property is stated of
  the values that the code has computed with it.
\<close>

datatype fl = Fin real | PInf | NInf | NaN

datatype py_error = ValueError | IndexError | ZeroDivisionError | RuntimeError

fun is_nan :: "fl \<Rightarrow> bool" where
  "is_nan NaN = True"
| "is_nan _ = False"

fun is_inf :: "fl \<Rightarrow> bool" where
  "is_inf PInf = True"
| "is_inf NInf = True"
| "is_inf _ = False"

fun is_finite :: "fl \<Rightarrow> bool" where
  "is_finite (Fin _) = True"
| "is_finite _ = False"

text \<open>The sign of a value that is not NaN, and the infinity (or NaN) of a sign.\<close>

fun sign_of :: "fl \<Rightarrow> real" where
  "sign_of (Fin a) = sgn a"
| "sign_of PInf = 1"
| "sign_of NInf = - 1"
| "sign_of NaN = 0"

definition inf_of_sign :: "real \<Rightarrow> fl" where
  "inf_of_sign s = (if s = 0 then NaN else if 0 < s then PInf else NInf)"

fun fneg :: "fl \<Rightarrow> fl" where
  "fneg (Fin a) = Fin (- a)"
| "fneg PInf = NInf"
| "fneg NInf = PInf"
| "fneg NaN = NaN"

fun fadd :: "fl \<Rightarrow> fl \<Rightarrow> fl" where
  "fadd (Fin a) (Fin b) = Fin (a + b)"
| "fadd NaN _ = NaN"
| "fadd _ NaN = NaN"
| "fadd PInf NInf = NaN"
| "fadd NInf PInf = NaN"
| "fadd PInf _ = PInf"
| "fadd _ PInf = PInf"
| "fadd NInf _ = NInf"
| "fadd _ NInf = NInf"

definition fsub :: "fl \<Rightarrow> fl \<Rightarrow> fl" where
  "fsub a b = fadd a (fneg b)"

text \<open>A product with an infinite factor is an infinity of the product's sign; \<open>inf * 0\<close> is NaN.\<close>

fun fmul :: "fl \<Rightarrow> fl \<Rightarrow> fl" where
  "fmul (Fin a) (Fin b) = Fin (a * b)"
| "fmul NaN _ = NaN"
| "fmul _ NaN = NaN"
| "fmul x y = inf_of_sign (sign_of x * sign_of y)"

text \<open>
  Array division never raises: \<open>0/0\<close> and \<open>inf/inf\<close> are NaN, \<open>a/0\<close> is an infinity of
  the sign of \<open>a\<close>, a finite number over an infinity is zero.
\<close>

fun fdiv :: "fl \<Rightarrow> fl \<Rightarrow> fl" where
  "fdiv NaN _ = NaN"
| "fdiv _ NaN = NaN"
| "fdiv (Fin a) (Fin b) = (if b = 0 then inf_of_sign (sgn a) else Fin (a / b))"
| "fdiv (Fin a) _ = Fin 0"
| "fdiv x (Fin b) = inf_of_sign (sign_of x * (if b = 0 then 1 else sgn b))"
| "fdiv _ _ = NaN"

definition fsum :: "fl list \<Rightarrow> fl" where
  "fsum xs = foldl fadd (Fin 0) xs"

definition np_mean :: "fl list \<Rightarrow> fl" where
  "np_mean xs = fdiv (fsum xs) (Fin (real (length xs)))"

section \<open>The autocorrelation estimator (diag\_stats.autocorr)\<close>

text \<open>
  \<open>np.correlate(a, v, 'full')\<close>: entry \<open>j\<close> is the sum of \<open>a[i + j - (len(v) - 1)] * v[i]\<close>
  over the \<open>i\<close> for which the index of \<open>a\<close> is in range.
\<close>

definition correlate_full :: "fl list \<Rightarrow> fl list \<Rightarrow> fl list" where
  "correlate_full a v =
     map (\<lambda>j. fsum (map (\<lambda>i. fmul (a ! (i + j + 1 - length v)) (v ! i))
                       (filter (\<lambda>i. length v \<le> i + j + 1 \<and> i + j + 1 - length v < length a)
                          [0..<length v])))
       [0..<length a + length v - 1]"

text \<open>The slice \<open>xs[-n:]\<close> for \<open>n > 0\<close>: the last \<open>n\<close> entries.\<close>

definition last_n :: "nat \<Rightarrow> 'a list \<Rightarrow> 'a list" where
  "last_n n xs = drop (length xs - n) xs"

text \<open>\<open>ts - np.mean(ts)\<close>\<close>

definition center :: "fl list \<Rightarrow> fl list" where
  "center ts = map (\<lambda>x. fsub x (np_mean ts)) ts"

text \<open>
  The array before the division of line 24: the last \<open>len(ts)\<close> entries of the full
  correlation (lags \<open>0 .. len(ts) - 1\<close>), with entry 0 overwritten by entry 1 under
  \<open>remove_spike\<close>. An empty input makes \<open>np.correlate\<close> raise ValueError; reading
  \<open>acf[1]\<close> of a one-element array raises IndexError.
\<close>

definition acf_raw :: "fl list \<Rightarrow> bool \<Rightarrow> py_error + fl list" where
  "acf_raw ts remove_spike =
     (if ts = [] then Inl ValueError
      else let acf = last_n (length ts) (correlate_full (center ts) (center ts))
           in if remove_spike
              then (if length acf < 2 then Inl IndexError else Inr (acf[0 := acf ! 1]))
              else Inr acf)"

text \<open>\<open>acf /= acf[0]\<close>: every entry is divided by the value entry 0 had before.\<close>

definition normalize_acf :: "fl list \<Rightarrow> fl list" where
  "normalize_acf acf = map (\<lambda>x. fdiv x (acf ! 0)) acf"

definition autocorr :: "fl list \<Rightarrow> bool \<Rightarrow> py_error + fl list" where
  "autocorr ts remove_spike =
     (case acf_raw ts remove_spike of
        Inl e \<Rightarrow> Inl e
      | Inr acf \<Rightarrow> Inr (normalize_acf acf))"

section \<open>The estimator over NumPy's floating-point routines\<close>

text \<open>
  The sums and products above are exact; those of NumPy are rounded to binary64 and can
  overflow or underflow. So that a statement about the estimator does not rest on that
  difference, the estimator is given a second time with the arithmetic of lines 20 and 21
  as parameters: the mean of an array, the subtraction of a scalar from an entry, and the
  inner product of two arrays of the same length, by which \<open>np.correlate\<close> computes each
  of its entries. Nothing is assumed of the three routines. What the estimator does with
  them is as before: the indexing of the full correlation, the slice, the overwriting of
  entry 0, and the division by entry 0, which follows the IEEE rules of \<open>fdiv\<close>.
\<close>

record numpy_lib =
  np_mean_of :: "fl list \<Rightarrow> fl"
  np_subtract :: "fl \<Rightarrow> fl \<Rightarrow> fl"
  np_dot :: "fl list \<Rightarrow> fl list \<Rightarrow> fl"

text \<open>
  \<open>np.correlate(a, v, 'full')\<close> with the inner product \<open>dot\<close>: entry \<open>j\<close> is the inner
  product of the entries \<open>a[i + j - (len(v) - 1)]\<close> with the entries \<open>v[i]\<close>, over the \<open>i\<close>
  for which the index of \<open>a\<close> is in range.
\<close>

definition correlate_full_with :: "(fl list \<Rightarrow> fl list \<Rightarrow> fl) \<Rightarrow> fl list \<Rightarrow> fl list \<Rightarrow> fl list" where
  "correlate_full_with dot a v =
     map (\<lambda>j. let is = filter (\<lambda>i. length v \<le> i + j + 1 \<and> i + j + 1 - length v < length a)
                          [0..<length v]
              in dot (map (\<lambda>i. a ! (i + j + 1 - length v)) is) (map (\<lambda>i. v ! i) is))
       [0..<length a + length v - 1]"

text \<open>\<open>ts - np.mean(ts)\<close>\<close>

definition center_on :: "numpy_lib \<Rightarrow> fl list \<Rightarrow> fl list" where
  "center_on np ts = map (\<lambda>x. np_subtract np x (np_mean_of np ts)) ts"

definition acf_raw_on :: "numpy_lib \<Rightarrow> fl list \<Rightarrow> bool \<Rightarrow> py_error + fl list" where
  "acf_raw_on np ts remove_spike =
     (if ts = [] then Inl ValueError
      else let acf = last_n (length ts)
                       (correlate_full_with (np_dot np) (center_on np ts) (center_on np ts))
           in if remove_spike
              then (if length acf < 2 then Inl IndexError else Inr (acf[0 := acf ! 1]))
              else Inr acf)"

definition autocorr_on :: "numpy_lib \<Rightarrow> fl list \<Rightarrow> bool \<Rightarrow> py_error + fl list" where
  "autocorr_on np ts remove_spike =
     (case acf_raw_on np ts remove_spike of
        Inl e \<Rightarrow> Inl e
      | Inr acf \<Rightarrow> Inr (normalize_acf acf))"

text \<open>The routines on the idealised numbers: with them the estimator is \<open>autocorr\<close>.\<close>

definition dot_exact :: "fl list \<Rightarrow> fl list \<Rightarrow> fl" where
  "dot_exact xs ys = fsum (map (\<lambda>(x, y). fmul x y) (zip xs ys))"

definition exact_numpy :: numpy_lib where
  "exact_numpy = \<lparr>np_mean_of = np_mean, np_subtract = fsub, np_dot = dot_exact\<rparr>"

text \<open>
  The routines with the range of binary64: a finite result of magnitude \<open>2^1024\<close> or more
  is an infinity of its sign. Rounding is not modelled here either, so these routines are
  those of NumPy on the inputs for which every finite intermediate result is a binary64
  number, such as small integers and powers of two.
\<close>

definition clip64 :: "fl \<Rightarrow> fl" where
  "clip64 x = (case x of Fin r \<Rightarrow> if \<bar>r\<bar> < 2 ^ 1024 then x else inf_of_sign r | _ \<Rightarrow> x)"

definition sum64 :: "fl list \<Rightarrow> fl" where
  "sum64 xs = foldl (\<lambda>a b. clip64 (fadd a b)) (Fin 0) xs"

definition dot64 :: "fl list \<Rightarrow> fl list \<Rightarrow> fl" where
  "dot64 xs ys = sum64 (map (\<lambda>(x, y). clip64 (fmul x y)) (zip xs ys))"

definition range_numpy :: numpy_lib where
  "range_numpy =
     \<lparr>np_mean_of = (\<lambda>xs. clip64 (fdiv (sum64 xs) (Fin (real (length xs))))),
      np_subtract = (\<lambda>a b. clip64 (fsub a b)),
      np_dot = dot64\<rparr>"

section \<open>The diagnostic record (diag\_stats.get\_diag\_stats, empty\_diag\_stats, fit\_acf)\<close>

subsection \<open>More array arithmetic\<close>

text \<open>Comparisons with NaN are false.\<close>

fun fl_less :: "fl \<Rightarrow> fl \<Rightarrow> bool" where
  "fl_less NaN _ = False"
| "fl_less _ NaN = False"
| "fl_less (Fin a) (Fin b) = (a < b)"
| "fl_less _ NInf = False"
| "fl_less NInf _ = True"
| "fl_less PInf _ = False"
| "fl_less _ PInf = True"

fun fl_le :: "fl \<Rightarrow> fl \<Rightarrow> bool" where
  "fl_le NaN _ = False"
| "fl_le _ NaN = False"
| "fl_le a b = (a = b \<or> fl_less a b)"

fun fabs :: "fl \<Rightarrow> fl" where
  "fabs (Fin a) = Fin \<bar>a\<bar>"
| "fabs NaN = NaN"
| "fabs _ = PInf"

fun fsqrt :: "fl \<Rightarrow> fl" where
  "fsqrt (Fin a) = (if a < 0 then NaN else Fin (sqrt a))"
| "fsqrt PInf = PInf"
| "fsqrt _ = NaN"

fun fexp :: "fl \<Rightarrow> fl" where
  "fexp (Fin a) = Fin (exp a)"
| "fexp PInf = PInf"
| "fexp NInf = Fin 0"
| "fexp NaN = NaN"

text \<open>
  \<open>np.abs(x) ** p\<close> for a real exponent \<open>p\<close>: the base is never negative. A zero base
  gives 0, 1 or infinity by the sign of \<open>p\<close>, and anything to the power 0 is 1.
\<close>

fun abs_pow :: "fl \<Rightarrow> real \<Rightarrow> fl" where
  "abs_pow (Fin a) p =
     (if p = 0 then Fin 1
      else if a = 0 then (if 0 < p then Fin 0 else PInf)
      else Fin (\<bar>a\<bar> powr p))"
| "abs_pow NaN p = (if p = 0 then Fin 1 else NaN)"
| "abs_pow _ p = (if p = 0 then Fin 1 else if 0 < p then PInf else Fin 0)"

text \<open>\<open>np.min\<close> raises ValueError on an empty array and returns NaN when an entry is NaN.\<close>

definition fmin :: "fl \<Rightarrow> fl \<Rightarrow> fl" where
  "fmin a b = (if is_nan a \<or> is_nan b then NaN else if fl_less b a then b else a)"

definition np_min :: "fl list \<Rightarrow> py_error + fl" where
  "np_min xs = (case xs of [] \<Rightarrow> Inl ValueError | x # ys \<Rightarrow> Inr (foldl fmin x ys))"

text \<open>\<open>np.std\<close>: the square root of the mean of the squared deviations from the mean.\<close>

definition np_std :: "fl list \<Rightarrow> fl" where
  "np_std xs = fsqrt (np_mean (map (\<lambda>x. fmul (fsub x (np_mean xs)) (fsub x (np_mean xs))) xs))"

text \<open>\<open>np.arange(a, b)\<close> as an array of floats.\<close>

definition arange :: "nat \<Rightarrow> nat \<Rightarrow> fl list" where
  "arange a b = map (\<lambda>i. Fin (real i)) [a..<b]"

text \<open>Reading \<open>xs[i]\<close> for \<open>i \<ge> 0\<close>: IndexError out of range.\<close>

definition py_index :: "'a list \<Rightarrow> nat \<Rightarrow> py_error + 'a" where
  "py_index xs i = (if i < length xs then Inr (xs ! i) else Inl IndexError)"

subsection \<open>The model of the autocorrelation that is fitted\<close>

text \<open>\<open>triangle(x, L)\<close>: \<open>1 - |x| / L\<close> where \<open>|x| \<le> L\<close>, else 0, entry by entry.\<close>

definition triangle :: "fl list \<Rightarrow> fl \<Rightarrow> fl list" where
  "triangle x L =
     map (\<lambda>xi. if fl_le (fabs xi) L then fsub (Fin 1) (fdiv (fabs xi) L) else Fin 0) x"

text \<open>\<open>scint_acf(x, t_d, pow)\<close>: \<open>exp(-(|x / t_d|) ** pow)\<close>.\<close>

definition scint_acf :: "fl list \<Rightarrow> fl \<Rightarrow> real \<Rightarrow> fl list" where
  "scint_acf x t_d pow = map (\<lambda>xi. fexp (fneg (abs_pow (fdiv xi t_d) pow))) x"

text \<open>\<open>scipy.signal.unit_impulse(n)\<close>: a one followed by zeros; index 0 of an empty array is out of range.\<close>

definition unit_impulse :: "nat \<Rightarrow> py_error + fl list" where
  "unit_impulse n = (if n = 0 then Inl IndexError else Inr (Fin 1 # replicate (n - 1) (Fin 0)))"

text \<open>
  \<open>noisy_scint_acf(x, t_d, A, W, pow, use_triangle)\<close>. With the taper, \<open>x[1]\<close> is read, which
  raises IndexError on an array of fewer than two lags.
\<close>

definition noisy_scint_acf ::
  "fl list \<Rightarrow> fl \<Rightarrow> fl \<Rightarrow> fl \<Rightarrow> real \<Rightarrow> bool \<Rightarrow> py_error + fl list" where
  "noisy_scint_acf x t_d A W pow use_triangle =
     (case (if use_triangle
            then (if length x < 2 then Inl IndexError
                  else Inr (triangle x (fmul (Fin (real (length x))) (fsub (x ! 1) (x ! 0)))))
            else Inr (replicate (length x) (Fin 1))) of
        Inl e \<Rightarrow> Inl e
      | Inr factor \<Rightarrow>
          (case unit_impulse (length x) of
             Inl e \<Rightarrow> Inl e
           | Inr imp \<Rightarrow>
               Inr (map (\<lambda>i. fadd (fmul (fmul A (scint_acf x t_d pow ! i)) (factor ! i))
                                 (fmul W (imp ! i)))
                      [0..<length x])))"

subsection \<open>External routines\<close>

text \<open>
  The routines of SciPy that the aggregator calls are not part of the repository; they are
  parameters of the model. \<open>kstest_expon\<close> and \<open>anderson_expon\<close> return the statistic of the
  Kolmogorov-Smirnov and of the Anderson-Darling test against the exponential
  distribution. \<open>curve_fit f xdata ydata bounds\<close> is \<open>scipy.optimize.curve_fit\<close>: it
  returns the fitted parameters, or raises; it raises RuntimeError when the optimizer does
  not converge. The function to fit takes the lags and the list of parameters.
\<close>

record stats_lib =
  kstest_expon :: "fl list \<Rightarrow> fl"
  anderson_expon :: "fl list \<Rightarrow> fl"
  curve_fit :: "(fl list \<Rightarrow> fl list \<Rightarrow> py_error + fl list) \<Rightarrow> fl list \<Rightarrow> fl list \<Rightarrow>
                fl list \<times> fl list \<Rightarrow> py_error + fl list"

text \<open>
  \<open>fit_acf(acf, pow, use_triangle, remove_spike)\<close>. It has no handler of its own: an
  exception of \<open>curve_fit\<close> is the exception of \<open>fit_acf\<close>.
\<close>

definition fit_acf :: "stats_lib \<Rightarrow> fl list \<Rightarrow> real \<Rightarrow> bool \<Rightarrow> bool \<Rightarrow> py_error + fl list" where
  "fit_acf lib acf pow use_triangle remove_spike =
     (if remove_spike
      then (case curve_fit lib
                   (\<lambda>x p. noisy_scint_acf x (p ! 0) (Fin 1) (Fin 0) pow use_triangle)
                   (arange 1 (length acf)) (drop 1 acf)
                   ([Fin 0], [Fin (real (length acf))]) of
              Inl e \<Rightarrow> Inl e
            | Inr popt \<Rightarrow>
                (case py_index popt 0 of
                   Inl e \<Rightarrow> Inl e
                 | Inr t \<Rightarrow> Inr [t, Fin 1, Fin 0]))
      else curve_fit lib
             (\<lambda>x p. noisy_scint_acf x (p ! 0) (p ! 1) (p ! 2) pow use_triangle)
             (arange 0 (length acf)) acf
             ([Fin 0, Fin 0, Fin 0], [Fin (real (length acf)), Fin 1, Fin 1]))"

subsection \<open>The record\<close>

text \<open>A dictionary from field names to values; a value is \<open>None\<close>, a float or an integer.\<close>

datatype pyval = PNone | PFloat fl | PInt int

type_synonym pydict = "string \<rightharpoonup> pyval"

text \<open>
  \<open>get_diag_stats(ts, dt, pow, use_triangle)\<close>, for \<open>ts\<close> an array (a \<open>TimeSeries\<close> object is
  unpacked into its array and its \<open>dt\<close> first). The statements run in the order of the
  source; only RuntimeError of the fit is caught, and replaced by three NaN.
\<close>

definition get_diag_stats ::
  "stats_lib \<Rightarrow> fl list \<Rightarrow> fl option \<Rightarrow> real \<Rightarrow> bool \<Rightarrow> py_error + pydict" where
  "get_diag_stats lib ts dt pow use_triangle =
     (case np_min ts of
        Inl e \<Rightarrow> Inl e
      | Inr mn \<Rightarrow>
     (case autocorr ts False of
        Inl e \<Rightarrow> Inl e
      | Inr ac \<Rightarrow>
     (case py_index ac 1 of
        Inl e \<Rightarrow> Inl e
      | Inr lag1 \<Rightarrow>
     (case py_index ac 2 of
        Inl e \<Rightarrow> Inl e
      | Inr lag2 \<Rightarrow>
     (case (case fit_acf lib ac pow use_triangle False of
              Inl e \<Rightarrow> (if e = RuntimeError then Inr [NaN, NaN, NaN] else Inl e)
            | Inr popt \<Rightarrow> Inr popt) of
        Inl e \<Rightarrow> Inl e
      | Inr popt \<Rightarrow>
     (case py_index popt 0 of
        Inl e \<Rightarrow> Inl e
      | Inr p0 \<Rightarrow>
     (case py_index popt 1 of
        Inl e \<Rightarrow> Inl e
      | Inr p1 \<Rightarrow>
     (case py_index popt 2 of
        Inl e \<Rightarrow> Inl e
      | Inr p2 \<Rightarrow>
          Inr [''std'' \<mapsto> PFloat (np_std ts),
               ''min'' \<mapsto> PFloat mn,
               ''ks'' \<mapsto> PFloat (kstest_expon lib ts),
               ''anderson'' \<mapsto> PFloat (anderson_expon lib ts),
               ''lag1'' \<mapsto> PFloat lag1,
               ''lag2'' \<mapsto> PFloat lag2,
               ''fit_t_d'' \<mapsto> PFloat (case dt of None \<Rightarrow> p0 | Some t \<Rightarrow> fmul p0 t),
               ''fit_A'' \<mapsto> PFloat p1,
               ''fit_W'' \<mapsto> PFloat p2]))))))))"

text \<open>\<open>empty_diag_stats(fchans)\<close>\<close>

definition empty_diag_stats :: "int \<Rightarrow> pydict" where
  "empty_diag_stats fchans =
     [''std'' \<mapsto> PNone,
      ''min'' \<mapsto> PNone,
      ''ks'' \<mapsto> PNone,
      ''anderson'' \<mapsto> PNone,
      ''lag1'' \<mapsto> PNone,
      ''lag2'' \<mapsto> PNone,
      ''fchans'' \<mapsto> PInt fchans,
      ''l'' \<mapsto> PNone,
      ''r'' \<mapsto> PNone,
      ''fit_t_d'' \<mapsto> PNone,
      ''fit_A'' \<mapsto> PNone,
      ''fit_W'' \<mapsto> PNone]"

text \<open>The field set of the specification's DiagnosticRecord, and the one of the aggregator.\<close>

definition record_fields :: "string set" where
  "record_fields = {''std'', ''min'', ''ks'', ''anderson'', ''lag1'', ''lag2'',
                    ''fit_t_d'', ''fit_A'', ''fit_W'', ''fchans'', ''l'', ''r''}"

definition stats_fields :: "string set" where
  "stats_fields = {''std'', ''min'', ''ks'', ''anderson'', ''lag1'', ''lag2'',
                   ''fit_t_d'', ''fit_A'', ''fit_W''}"

text \<open>
  A stand-in for the external routines at concrete inputs: an optimizer that never
  converges, and test statistics that are zero.
\<close>

definition failing_fit_lib :: stats_lib where
  "failing_fit_lib =
     \<lparr>kstest_expon = (\<lambda>_. Fin 0), anderson_expon = (\<lambda>_. Fin 0),
      curve_fit = (\<lambda>_ _ _ _. Inl RuntimeError)\<rparr>"

section \<open>The spectral synthesizer (simulations/timeseries/fft.get\_ts\_fft)\<close>

subsection \<open>Complex arrays and the discrete Fourier transform\<close>

text \<open>A \<open>complex128\<close> value is a pair of floats; a real array is cast by adding a zero imaginary part.\<close>

type_synonym cfl = "fl \<times> fl"


fun cmul :: "cfl \<Rightarrow> cfl \<Rightarrow> cfl" where
  "cmul (a, b) (c, d) = (fsub (fmul a c) (fmul b d), fadd (fmul a d) (fmul b c))"







text \<open>
  \<open>np.linspace(start, stop, num, endpoint)\<close>: \<open>num\<close> points \<open>start + k * step\<close> with
  \<open>step = (stop - start) / dv\<close>, where \<open>dv\<close> is \<open>num - 1\<close> with the end point and \<open>num\<close>
  without; with the end point and more than one point the last entry is \<open>stop\<close> itself.
  When there is no step (\<open>dv = 0\<close>) the points are \<open>start + k * (stop - start)\<close>.
\<close>

definition np_linspace :: "fl \<Rightarrow> fl \<Rightarrow> nat \<Rightarrow> bool \<Rightarrow> fl list" where
  "np_linspace start stop num endpoint =
     (let dv = (if endpoint then num - 1 else num);
          delta = fsub stop start;
          step = (if 0 < dv then fdiv delta (Fin (real dv)) else delta);
          y = map (\<lambda>k. fadd (fmul (Fin (real k)) step) start) [0..<num]
      in if endpoint \<and> 1 < num then y[num - 1 := stop] else y)"


subsection \<open>The generator\<close>

text \<open>
  The generator that \<open>np.random.default_rng(seed)\<close> returns is modelled by the sequence of
  variates it is going to produce. \<open>standard_normal g n\<close> takes the next \<open>n\<close> of them and
  returns the generator advanced by \<open>n\<close>.
\<close>

type_synonym rng = "nat \<Rightarrow> real"


subsection \<open>The synthesizer\<close>




text \<open>A generator for concrete runs: every variate it produces is 1.\<close>

definition ones_rng :: rng where
  "ones_rng = (\<lambda>_. 1)"

section \<open>The Markov-chain synthesizer (gen\_pdf.get\_ts\_pdf)\<close>

subsection \<open>External routines and the global generator\<close>

text \<open>
  \<open>scipy.special.i0\<close> and setigen's \<open>gaussian(x, x0, sigma)\<close> are not part of the repository,
  and the module \<open>factors\<close> that defines the constant \<open>hwem_m\<close> is not among the sources:
  the three are parameters of the model. In particular \<open>i0\<close> may return infinity on a large
  finite argument, as the routine does when it overflows.
\<close>

record pdf_lib =
  i0 :: "fl \<Rightarrow> fl"
  gaussian :: "fl \<Rightarrow> fl \<Rightarrow> fl \<Rightarrow> fl"
  hwem_m :: fl

text \<open>
  \<open>get_ts_pdf\<close> has no seed argument: it draws from the generator of the module
  \<open>np.random\<close>, which belongs to the process. Its state is an input and an output of every
  call; it is modelled by the sequence of variates it is going to return, of which each
  draw takes the first.
\<close>

definition draw :: "rng \<Rightarrow> real \<times> rng" where
  "draw g = (g 0, (\<lambda>i. g (Suc i)))"

text \<open>
  What a call does: it returns, it raises, or it ends the process with \<open>sys.exit\<close> after
  printing to the standard output.
\<close>

datatype 'a outcome = Return 'a | Raise py_error | SysExit (printed: "nat list") (status: int)

subsection \<open>find\_nearest and bpdf\<close>

text \<open>
  \<open>np.argmin\<close>: the first index of the least entry, the first NaN when there is one;
  ValueError on an empty array.
\<close>

fun argmin_loop :: "fl list \<Rightarrow> nat \<Rightarrow> nat \<Rightarrow> fl \<Rightarrow> nat" where
  "argmin_loop [] i best bv = best"
| "argmin_loop (x # xs) i best bv =
     (if is_nan bv then best
      else if is_nan x \<or> fl_less x bv then argmin_loop xs (Suc i) i x
      else argmin_loop xs (Suc i) best bv)"

definition np_argmin :: "fl list \<Rightarrow> py_error + nat" where
  "np_argmin xs = (case xs of [] \<Rightarrow> Inl ValueError | x # ys \<Rightarrow> Inr (argmin_loop ys 1 0 x))"

definition find_nearest :: "fl list \<Rightarrow> fl \<Rightarrow> py_error + nat" where
  "find_nearest arr val = np_argmin (map (\<lambda>x. fabs (fsub x val)) arr)"

text \<open>
  \<open>bpdf(g1, g2, ac)\<close> for a scalar \<open>g1\<close>, an array \<open>g2\<close> and a NumPy scalar \<open>ac\<close>. The Bessel
  factor is computed for the whole array; if one of its entries is infinite, the whole
  array is computed by the exponential form, else by the closed form.
\<close>

definition bessel_arg :: "fl \<Rightarrow> fl \<Rightarrow> fl \<Rightarrow> fl" where
  "bessel_arg g1 g2 ac =
     fdiv (fmul (Fin 2) (fsqrt (fmul (fmul g1 g2) ac))) (fsub (Fin 1) ac)"

definition bpdf_asymptotic :: "fl \<Rightarrow> fl \<Rightarrow> fl \<Rightarrow> fl" where
  "bpdf_asymptotic g1 g2 ac =
     fmul (fmul (fdiv (Fin 1) (fsub (Fin 1) ac))
                (fexp (fdiv (fadd (fneg (fadd g1 g2))
                                  (fmul (Fin 2) (fsqrt (fmul (fmul g1 g2) ac))))
                            (fsub (Fin 1) ac))))
          (fsqrt (fdiv (fmul (Fin (4 * pi)) (fsqrt (fmul (fmul g1 g2) ac))) (fsub (Fin 1) ac)))"

definition bpdf_closed :: "fl \<Rightarrow> fl \<Rightarrow> fl \<Rightarrow> fl \<Rightarrow> fl" where
  "bpdf_closed g1 g2 ac i_factor =
     fmul (fmul (fdiv (Fin 1) (fsub (Fin 1) ac))
                (fexp (fdiv (fneg (fadd g1 g2)) (fsub (Fin 1) ac))))
          i_factor"

definition bpdf :: "pdf_lib \<Rightarrow> fl \<Rightarrow> fl list \<Rightarrow> fl \<Rightarrow> fl list" where
  "bpdf lib g1 g2 ac =
     (let i_factor = map (\<lambda>g. i0 lib (bessel_arg g1 g ac)) g2
      in if list_ex is_inf i_factor
         then map (\<lambda>g. bpdf_asymptotic g1 g ac) g2
         else map2 (\<lambda>g i. bpdf_closed g1 g ac i) g2 i_factor)"

subsection \<open>np.random.choice\<close>

text \<open>\<open>np.cumsum\<close>\<close>

fun cumsum_from :: "fl \<Rightarrow> fl list \<Rightarrow> fl list" where
  "cumsum_from a [] = []"
| "cumsum_from a (x # xs) = fadd a x # cumsum_from (fadd a x) xs"

text \<open>The tolerance of the check that the probabilities sum to one: the square root of the machine epsilon.\<close>

definition choice_atol :: real where
  "choice_atol = 1 / 2 ^ 26"

text \<open>
  \<open>np.random.choice(np.arange(pop_size), p=p)\<close>. It raises ValueError when the population is
  empty, when \<open>p\<close> has another length, when the sum of \<open>p\<close> is NaN, when an entry is
  negative and when the sum is not 1 within the tolerance. Otherwise it draws one uniform
  variate \<open>u\<close> and returns the number of entries of the normalised cumulative sums that
  are at most \<open>u\<close> (\<open>searchsorted\<close> from the right); that index is out of range only for
  \<open>u \<ge> 1\<close>.
\<close>

definition np_choice :: "nat \<Rightarrow> fl list \<Rightarrow> rng \<Rightarrow> (py_error + nat) \<times> rng" where
  "np_choice pop_size p g =
     (if pop_size = 0 \<or> length p \<noteq> pop_size then (Inl ValueError, g)
      else if is_nan (fsum p) then (Inl ValueError, g)
      else if list_ex (\<lambda>x. fl_less x (Fin 0)) p then (Inl ValueError, g)
      else if fl_less (Fin choice_atol) (fabs (fsub (fsum p) (Fin 1))) then (Inl ValueError, g)
      else let cdf = cumsum_from (Fin 0) p;
               (u, g') = draw g;
               idx = length (takeWhile (\<lambda>c. fl_le (fdiv c (last cdf)) (Fin u)) cdf)
           in if idx < pop_size then (Inr idx, g') else (Inl IndexError, g'))"

subsection \<open>The synthesizer\<close>

text \<open>
  Lines 63 to 65: draw from the exponential distribution until a draw is at most \<open>max_g\<close>.
  The loop need not end; then the function has no value.
\<close>

partial_function (option) draw_init :: "fl \<Rightarrow> fl \<Rightarrow> rng \<Rightarrow> (fl \<times> rng) option" where
  "draw_init max_g init_g g =
     (if fl_less max_g init_g
      then draw_init max_g (Fin (fst (draw g))) (snd (draw g))
      else Some (init_g, g))"

text \<open>
  The loop of lines 69 to 85, with \<open>r\<close> iterations left and \<open>i\<close> the loop variable. Reading
  \<open>ac_arr[1]\<close> is outside the \<open>try\<close>: its IndexError is raised. Any exception of
  \<open>np.random.choice\<close> is caught by the bare \<open>except\<close>, which prints \<open>i\<close> and calls
  \<open>sys.exit(1)\<close>.
\<close>

fun chain ::
  "pdf_lib \<Rightarrow> fl list \<Rightarrow> fl list \<Rightarrow> nat \<Rightarrow> nat \<Rightarrow> nat \<Rightarrow> nat list \<Rightarrow> rng \<Rightarrow> nat list outcome \<times> rng" where
  "chain lib possible_g ac_arr steps 0 i ts_idx g = (Return ts_idx, g)"
| "chain lib possible_g ac_arr steps (Suc r) i ts_idx g =
     (case py_index ac_arr 1 of
        Inl e \<Rightarrow> (Raise e, g)
      | Inr ac \<Rightarrow>
          (let raw_p = bpdf lib (possible_g ! (ts_idx ! (i - 1))) possible_g ac;
               p = map (\<lambda>x. fdiv x (fsum raw_p)) raw_p
           in case np_choice steps p g of
                (Inl e, g') \<Rightarrow> (SysExit [i] 1, g')
              | (Inr k, g') \<Rightarrow> chain lib possible_g ac_arr steps r (Suc i) (ts_idx[i := k]) g'))"

text \<open>
  \<open>get_ts_pdf(t_d, dt, num_samples, max_g, steps)\<close> on the generator state \<open>g\<close>. \<open>t_d\<close> and
  \<open>dt\<close> are Python floats, so a zero \<open>dt\<close> raises ZeroDivisionError; \<open>max_g\<close> is any float.
  \<open>find_nearest\<close> raises ValueError on an empty grid, and storing into \<open>ts_idx[0]\<close> raises
  IndexError when \<open>num_samples\<close> is zero. The variable \<open>update_freq\<close> of line 68 is never
  used. The value is \<open>None\<close> when the loop of line 64 does not end.
\<close>

definition get_ts_pdf ::
  "pdf_lib \<Rightarrow> real \<Rightarrow> real \<Rightarrow> nat \<Rightarrow> fl \<Rightarrow> nat \<Rightarrow> rng \<Rightarrow> (fl list outcome \<times> rng) option" where
  "get_ts_pdf lib t_d dt num_samples max_g steps g =
     (if dt = 0 then Some (Raise ZeroDivisionError, g)
      else
        let ac_arr = map (\<lambda>x. gaussian lib x (Fin 0) (fdiv (Fin (t_d / dt)) (hwem_m lib)))
                       (arange 0 steps);
            possible_g = np_linspace (Fin 0) max_g steps False
        in case draw_init max_g (fadd max_g (Fin 1)) g of
             None \<Rightarrow> None
           | Some (init_g, g1) \<Rightarrow>
               (case find_nearest possible_g init_g of
                  Inl e \<Rightarrow> Some (Raise e, g1)
                | Inr k \<Rightarrow>
                    if num_samples = 0 then Some (Raise IndexError, g1)
                    else
                      (case chain lib possible_g ac_arr steps (num_samples - 1) 1
                              ((replicate num_samples 0)[0 := k]) g1 of
                         (Return ts_idx, g2) \<Rightarrow> Some (Return (map (\<lambda>j. possible_g ! j) ts_idx), g2)
                       | (Raise e, g2) \<Rightarrow> Some (Raise e, g2)
                       | (SysExit out st, g2) \<Rightarrow> Some (SysExit out st, g2))))"

subsection \<open>The external routines on the idealised numbers\<close>

text \<open>
  For concrete runs: the modified Bessel function of order zero by its power series, the
  Gaussian \<open>exp(-(x - x0)^2 / (2 sigma^2))\<close> of setigen, and \<open>sqrt 2\<close> for \<open>hwem_m\<close>, the
  factor between the width of a Gaussian at \<open>1/e\<close> of its maximum and its \<open>sigma\<close>.
  \<open>scipy.special.i0\<close> returns NaN at both infinities. The Gaussian is not rounded: at lag 1
  it is below 1 for every finite width, where the routine of binary64 returns 1 for a
  width from about \<open>10^8\<close> on; the runs below use widths far from that.
\<close>

definition bessel_i0 :: "real \<Rightarrow> real" where
  "bessel_i0 x = (\<Sum>k. (x / 2) ^ (2 * k) / (fact k)\<^sup>2)"

fun i0_exact :: "fl \<Rightarrow> fl" where
  "i0_exact (Fin x) = Fin (bessel_i0 x)"
| "i0_exact _ = NaN"

definition gaussian_exact :: "fl \<Rightarrow> fl \<Rightarrow> fl \<Rightarrow> fl" where
  "gaussian_exact x x0 sigma =
     fexp (fdiv (fneg (fmul (fsub x x0) (fsub x x0))) (fmul (Fin 2) (fmul sigma sigma)))"

definition exact_lib :: pdf_lib where
  "exact_lib = \<lparr>i0 = i0_exact, gaussian = gaussian_exact, hwem_m = Fin (sqrt 2)\<rparr>"

text \<open>
  The same routines with a Bessel function that overflows as the one of binary64 does.
  For an argument above 8 the routine multiplies \<open>exp |x|\<close> by a bounded factor, so it
  returns infinity as soon as \<open>exp |x|\<close> is out of the range of binary64, which is from
  about 709.78 on.
\<close>

fun i0_overflowing :: "fl \<Rightarrow> fl" where
  "i0_overflowing (Fin x) = (if exp \<bar>x\<bar> < 2 ^ 1024 then Fin (bessel_i0 x) else PInf)"
| "i0_overflowing _ = NaN"

definition overflow_lib :: pdf_lib where
  "overflow_lib = \<lparr>i0 = i0_overflowing, gaussian = gaussian_exact, hwem_m = Fin (sqrt 2)\<rparr>"

text \<open>
  The approximation that the comment of line 41 cites for the divergent case, and that the
  specification calls the large-argument asymptotic approximation of \<open>I0\<close>:
  \<open>I0(x) ~ exp(x) / sqrt(2 pi x)\<close>. It is not taken from the code; it is what line 42 is
  compared with.
\<close>

definition i0_large_argument :: "real \<Rightarrow> real" where
  "i0_large_argument x = exp x / sqrt (2 * pi * x)"
section \<open>Properties of the autocorrelation estimator\<close>




lemma acf_raw_length: "acf_raw ts rs = Inr raw \<Longrightarrow> length raw = length ts \<and> ts \<noteq> []"
  by (auto simp: acf_raw_def Let_def last_n_def correlate_full_def center_def split: if_splits)

subsection \<open>The retained lags\<close>

lemma last_n_length: "n \<le> length xs \<Longrightarrow> length (last_n n xs) = n"
  by (simp add: last_n_def)

lemma correlate_full_with_length: "length (correlate_full_with dot a v) = length a + length v - 1"
  by (simp add: correlate_full_with_def)

lemma filter_lag_upt:
  assumes "k < n"
  shows "filter (\<lambda>i. n \<le> i + (n - 1 + k) + 1 \<and> i + (n - 1 + k) + 1 - n < n) [0..<n] = [0..<n - k]"
proof -
  have "filter (\<lambda>i. n \<le> i + (n - 1 + k) + 1 \<and> i + (n - 1 + k) + 1 - n < n) [0..<n]
        = filter (\<lambda>i. i < n - k) [0..<n]"
    using assms by (intro filter_cong) auto
  also have "\<dots> = [0..<n - k]"
  proof -
    have "[0..<n] = [0..<n - k] @ [n - k..<n]"
      using upt_add_eq_append [of 0 "n - k" k] assms by simp
    then show ?thesis by (simp add: filter_empty_conv)
  qed
  finally show ?thesis .
qed

lemma correlate_full_with_nth:
  "j < length a + length v - 1 \<Longrightarrow>
   correlate_full_with dot a v ! j =
     dot (map (\<lambda>i. a ! (i + j + 1 - length v))
            (filter (\<lambda>i. length v \<le> i + j + 1 \<and> i + j + 1 - length v < length a) [0..<length v]))
         (map (\<lambda>i. v ! i)
            (filter (\<lambda>i. length v \<le> i + j + 1 \<and> i + j + 1 - length v < length a) [0..<length v]))"
  unfolding correlate_full_with_def Let_def by (subst nth_map) simp_all

lemma lags_nth:
  assumes "k < length c"
  shows "last_n (length c) (correlate_full_with dot c c) ! k
         = dot (drop k c) (take (length c - k) c)"
proof -
  let ?n = "length c"
  have n: "0 < ?n" using assms by (cases c) simp_all
  have idx: "?n - 1 + k < ?n + ?n - 1" using assms n by simp
  have "last_n ?n (correlate_full_with dot c c) ! k = correlate_full_with dot c c ! (?n - 1 + k)"
    using assms n by (simp add: last_n_def correlate_full_with_length)
  also have "\<dots> = dot (map (\<lambda>i. c ! (i + (?n - 1 + k) + 1 - ?n)) [0..<?n - k]) (map (\<lambda>i. c ! i) [0..<?n - k])"
    unfolding correlate_full_with_nth [OF idx] filter_lag_upt [OF assms] ..
  also have "map (\<lambda>i. c ! (i + (?n - 1 + k) + 1 - ?n)) [0..<?n - k] = drop k c"
    using assms by (intro nth_equalityI) (auto simp: add.commute)
  also have "map (\<lambda>i. c ! i) [0..<?n - k] = take (?n - k) c"
    by (intro nth_equalityI) auto
  finally show ?thesis .
qed

lemma acf_raw_on_cases:
  "acf_raw_on np ts rs =
     (if ts = [] then Inl ValueError
      else if rs \<and> length ts < 2 then Inl IndexError
      else let lags = last_n (length ts) (correlate_full_with (np_dot np) (center_on np ts) (center_on np ts))
           in Inr (if rs then lags[0 := lags ! 1] else lags))"
  by (cases ts) (simp_all add: acf_raw_on_def Let_def last_n_def correlate_full_with_length center_on_def)

subsection \<open>What the estimator returns\<close>

lemma center_on_length: "length (center_on np ts) = length ts"
  by (simp add: center_on_def)

lemma lags_on_length:
  "ts \<noteq> [] \<Longrightarrow>
   length (last_n (length ts) (correlate_full_with dot (center_on np ts) (center_on np ts))) = length ts"
  by (cases ts) (simp_all add: last_n_def correlate_full_with_length center_on_length)

lemma acf_raw_on_Inr:
  assumes "acf_raw_on np ts rs = Inr raw"
  shows "ts \<noteq> []" and "length raw = length ts" and "rs \<Longrightarrow> 2 \<le> length ts"
    and "rs \<Longrightarrow> raw ! 0 = raw ! 1"
    and "\<And>k. k < length ts \<Longrightarrow> (rs \<Longrightarrow> 0 < k) \<Longrightarrow>
           raw ! k = np_dot np (drop k (center_on np ts)) (take (length ts - k) (center_on np ts))"
proof -
  let ?c = "center_on np ts"
  let ?lags = "last_n (length ts) (correlate_full_with (np_dot np) ?c ?c)"
  from assms show ne: "ts \<noteq> []"
    by (auto simp: acf_raw_on_cases split: if_splits)
  from assms show sp: "rs \<Longrightarrow> 2 \<le> length ts"
    by (auto simp: acf_raw_on_cases split: if_splits)
  from assms ne have raw: "raw = (if rs then ?lags[0 := ?lags ! 1] else ?lags)"
    by (auto simp: acf_raw_on_cases Let_def split: if_splits)
  have len: "length ?lags = length ts"
    using ne by (rule lags_on_length)
  show "length raw = length ts"
    using len by (simp add: raw)
  show "rs \<Longrightarrow> raw ! 0 = raw ! 1"
  proof -
    assume rs: rs
    with sp len have "0 < length ?lags" and "1 < length ?lags" by linarith+
    then show ?thesis by (simp add: raw rs)
  qed
  fix k assume k: "k < length ts" and pos: "rs \<Longrightarrow> 0 < k"
  have "raw ! k = ?lags ! k"
    using pos by (cases rs) (simp_all add: raw)
  also have "\<dots> = np_dot np (drop k ?c) (take (length ?c - k) ?c)"
    using lags_nth [of k ?c "np_dot np"] k by (simp add: center_on_length)
  finally show "raw ! k = np_dot np (drop k ?c) (take (length ts - k) ?c)"
    by (simp add: center_on_length)
qed

lemma acf_raw_on_returns:
  "(if rs then 2 else 1) \<le> length ts \<Longrightarrow> \<exists>raw. acf_raw_on np ts rs = Inr raw"
  by (cases rs) (auto simp: acf_raw_on_cases Let_def)

lemma autocorr_on_Inr:
  "acf_raw_on np ts rs = Inr raw \<Longrightarrow> autocorr_on np ts rs = Inr (normalize_acf raw)"
  by (simp add: autocorr_on_def)

lemma autocorr_on_Inl:
  "acf_raw_on np ts rs = Inl e \<Longrightarrow> autocorr_on np ts rs = Inl e"
  by (simp add: autocorr_on_def)

lemma normalize_nth: "k < length acf \<Longrightarrow> normalize_acf acf ! k = fdiv (acf ! k) (acf ! 0)"
  by (simp add: normalize_acf_def)

lemma normalize_length: "length (normalize_acf acf) = length acf"
  by (simp add: normalize_acf_def)

lemma fdiv_self: "fdiv x x = (case x of Fin d \<Rightarrow> if d = 0 then NaN else Fin 1 | _ \<Rightarrow> NaN)"
  by (cases x) (simp_all add: inf_of_sign_def)

lemma fdiv_zero_not_finite: "\<not> is_finite (fdiv x (Fin 0))"
  by (cases x) (simp_all add: inf_of_sign_def)

lemma unit_zero_lag:
  assumes "acf_raw_on np ts rs = Inr raw" and "raw ! 0 = Fin d" and "d \<noteq> 0"
  shows "autocorr_on np ts rs = Inr (map (\<lambda>x. fdiv x (Fin d)) raw)"
    and "map (\<lambda>x. fdiv x (Fin d)) raw ! 0 = Fin 1"
proof -
  have len: "0 < length raw"
    using acf_raw_on_Inr(1,2) [OF assms(1)] by simp
  show "autocorr_on np ts rs = Inr (map (\<lambda>x. fdiv x (Fin d)) raw)"
    using assms by (simp add: autocorr_on_Inr normalize_acf_def)
  show "map (\<lambda>x. fdiv x (Fin d)) raw ! 0 = Fin 1"
    using len assms by simp
qed

lemma zero_lag_zero:
  assumes "acf_raw_on np ts rs = Inr raw" and "raw ! 0 = Fin 0"
  shows "autocorr_on np ts rs = Inr (map (\<lambda>x. fdiv x (Fin 0)) raw)"
    and "map (\<lambda>x. fdiv x (Fin 0)) raw ! 0 = NaN"
    and "list_all (\<lambda>x. \<not> is_finite x) (map (\<lambda>x. fdiv x (Fin 0)) raw)"
proof -
  have len: "0 < length raw"
    using acf_raw_on_Inr(1,2) [OF assms(1)] by simp
  show "autocorr_on np ts rs = Inr (map (\<lambda>x. fdiv x (Fin 0)) raw)"
    using assms by (simp add: autocorr_on_Inr normalize_acf_def)
  show "map (\<lambda>x. fdiv x (Fin 0)) raw ! 0 = NaN"
    using len assms by (simp add: inf_of_sign_def)
  show "list_all (\<lambda>x. \<not> is_finite x) (map (\<lambda>x. fdiv x (Fin 0)) raw)"
    by (simp add: list_all_iff fdiv_zero_not_finite)
qed

lemma spike_lag1:
  assumes "2 \<le> length ts"
  shows "\<exists>raw out. acf_raw_on np ts True = Inr raw \<and> autocorr_on np ts True = Inr out \<and>
           length out = length ts \<and>
           raw ! 1 = np_dot np (drop 1 (center_on np ts)) (take (length ts - 1) (center_on np ts)) \<and>
           out ! 0 = (case raw ! 1 of Fin d \<Rightarrow> if d = 0 then NaN else Fin 1 | _ \<Rightarrow> NaN) \<and>
           out ! 1 = (case raw ! 1 of Fin d \<Rightarrow> if d = 0 then NaN else Fin 1 | _ \<Rightarrow> NaN)"
proof -
  from assms obtain raw where raw: "acf_raw_on np ts True = Inr raw"
    using acf_raw_on_returns [of True ts np] by auto
  have len: "length raw = length ts" and eq: "raw ! 0 = raw ! 1"
    using acf_raw_on_Inr(2,4) [OF raw] by simp_all
  have lag: "raw ! 1 = np_dot np (drop 1 (center_on np ts)) (take (length ts - 1) (center_on np ts))"
    using acf_raw_on_Inr(5) [OF raw, of 1] assms by simp
  have out: "autocorr_on np ts True = Inr (normalize_acf raw)"
    using raw by (rule autocorr_on_Inr)
  have pos: "0 < length raw" and one: "1 < length raw"
    using len assms by linarith+
  have n0: "normalize_acf raw ! 0 = fdiv (raw ! 1) (raw ! 1)"
    using normalize_nth [OF pos] eq by simp
  have n1: "normalize_acf raw ! 1 = fdiv (raw ! 1) (raw ! 1)"
    using normalize_nth [OF one] eq by simp
  show ?thesis
    using raw out len lag n0 n1 by (simp add: normalize_length fdiv_self)
qed

subsection \<open>The estimator on the idealised numbers\<close>

lemma zip_map_same: "map (\<lambda>(x, y). h x y) (zip (map f xs) (map g xs)) = map (\<lambda>i. h (f i) (g i)) xs"
  by (induction xs) simp_all

lemma correlate_full_exact: "correlate_full_with dot_exact a v = correlate_full a v"
  by (simp add: correlate_full_with_def correlate_full_def dot_exact_def Let_def zip_map_same)

lemma center_on_exact: "center_on exact_numpy ts = center ts"
  by (simp add: center_on_def center_def exact_numpy_def)

lemma np_dot_exact: "np_dot exact_numpy = dot_exact"
  by (simp add: exact_numpy_def)

lemma acf_raw_on_exact: "acf_raw_on exact_numpy ts rs = acf_raw ts rs"
  by (simp add: acf_raw_on_def acf_raw_def center_on_exact np_dot_exact correlate_full_exact)

lemma autocorr_on_exact: "autocorr_on exact_numpy ts rs = autocorr ts rs"
  by (simp add: autocorr_on_def autocorr_def acf_raw_on_exact)

subsection \<open>Evaluation with the range of binary64\<close>

lemma clip64_small: "\<bar>r\<bar> < 2 ^ 1024 \<Longrightarrow> clip64 (Fin r) = Fin r"
  by (simp add: clip64_def)

lemma clip64_special: "clip64 PInf = PInf" "clip64 NInf = NInf" "clip64 NaN = NaN"
  by (simp_all add: clip64_def)

lemma upt_small:
  "[0..<2] = [0, Suc 0]" "[0..<3] = [0, Suc 0, 2]" "[0..<4] = [0, Suc 0, 2, 3]"
  by code_simp+

lemmas range_numpy_eval =
  acf_raw_on_def center_on_def range_numpy_def correlate_full_with_def dot64_def sum64_def
  fsub_def last_n_def Let_def upt_small clip64_small clip64_special inf_of_sign_def

lemma big_lt: "(2::real) ^ 520 < 2 ^ 1024"
  by (rule power_strict_increasing) simp_all

lemma big_ge: "\<not> (2::real) ^ 520 * 2 ^ 520 < 2 ^ 1024"
proof -
  have "(2::real) ^ 1024 \<le> 2 ^ 1040" by (rule power_increasing) simp_all
  moreover have "(2::real) ^ 520 * 2 ^ 520 = 2 ^ 1040" by (simp only: power_add [symmetric]) simp
  ultimately show ?thesis by linarith
qed

lemma overflow_pair:
  assumes a: "0 < a" "a < 2 ^ 1024" and aa: "\<not> a * a < 2 ^ 1024"
  shows "acf_raw_on range_numpy [Fin a, Fin (- a)] False = Inr [PInf, NInf]"
proof -
  have c1: "clip64 (Fin a) = Fin a" "clip64 (Fin (- a)) = Fin (- a)" "clip64 (Fin 0) = Fin 0"
    using a by (simp_all add: clip64_def)
  have c2: "clip64 (Fin (a * a)) = PInf" "clip64 (Fin (- (a * a))) = NInf"
    using a aa by (simp_all add: clip64_def inf_of_sign_def)
  have m: "np_mean_of range_numpy [Fin a, Fin (- a)] = Fin 0"
    by (simp add: range_numpy_def sum64_def c1)
  have c: "center_on range_numpy [Fin a, Fin (- a)] = [Fin a, Fin (- a)]"
    unfolding center_on_def m by (simp add: range_numpy_def fsub_def c1)
  have corr: "correlate_full_with (np_dot range_numpy) [Fin a, Fin (- a)] [Fin a, Fin (- a)]
              = [NInf, PInf, NInf]"
    by (simp add: range_numpy_def correlate_full_with_def dot64_def upt_small sum64_def
        c1 c2 clip64_special)
  show ?thesis
    unfolding acf_raw_on_def c corr by (simp add: last_n_def)
qed


section \<open>Properties of the diagnostic record\<close>

lemma dom_empty_diag_stats: "dom (empty_diag_stats n) = record_fields"
  by (auto simp: empty_diag_stats_def record_fields_def)

lemma dom_get_diag_stats:
  "get_diag_stats lib ts dt pow use_triangle = Inr d \<Longrightarrow> dom d = stats_fields"
  unfolding get_diag_stats_def stats_fields_def
  by (auto split: sum.splits if_splits)

lemma stats_fields_neq: "stats_fields \<noteq> record_fields"
proof -
  have "''l'' \<in> record_fields" by (simp add: record_fields_def)
  moreover have "''l'' \<notin> stats_fields" by (simp add: stats_fields_def)
  ultimately show ?thesis by blast
qed

lemma autocorr_124: "autocorr [Fin 1, Fin 2, Fin 4] False = Inr [Fin 1, Fin (- 1 / 42), Fin (- 10 / 21)]"
  by code_simp

lemma np_min_124: "np_min [Fin 1, Fin 2, Fin 4] = Inr (Fin 1)"
  by code_simp

lemma get_diag_stats_runtime_error:
  assumes mn: "np_min ts = Inr mn"
    and ac: "autocorr ts False = Inr ac"
    and len: "3 \<le> length ts"
    and fit: "fit_acf lib ac pow use_triangle False = Inl RuntimeError"
  shows "get_diag_stats lib ts dt pow use_triangle =
         Inr [''std'' \<mapsto> PFloat (np_std ts),
              ''min'' \<mapsto> PFloat mn,
              ''ks'' \<mapsto> PFloat (kstest_expon lib ts),
              ''anderson'' \<mapsto> PFloat (anderson_expon lib ts),
              ''lag1'' \<mapsto> PFloat (ac ! 1),
              ''lag2'' \<mapsto> PFloat (ac ! 2),
              ''fit_t_d'' \<mapsto> PFloat NaN,
              ''fit_A'' \<mapsto> PFloat NaN,
              ''fit_W'' \<mapsto> PFloat NaN]"
proof -
  from ac have "length ac = length ts"
    by (auto simp: autocorr_def normalize_acf_def split: sum.splits dest: acf_raw_length)
  with len have l: "1 < length ac" "2 < length ac" by linarith+
  have i: "py_index ac (Suc 0) = Inr (ac ! Suc 0)" "py_index ac 2 = Inr (ac ! 2)"
    unfolding py_index_def using l by simp_all
  have t: "(case dt of None \<Rightarrow> NaN | Some t \<Rightarrow> fmul NaN t) = NaN"
    by (cases dt) simp_all
  have p: "py_index [NaN, NaN, NaN] 0 = Inr NaN" "py_index [NaN, NaN, NaN] (Suc 0) = Inr NaN"
    "py_index [NaN, NaN, NaN] 2 = Inr NaN"
    by (simp_all add: py_index_def)
  show ?thesis
    unfolding get_diag_stats_def by (simp add: mn ac i fit p t)
qed

lemma failing_fit: "fit_acf failing_fit_lib acf pow use_triangle False = Inl RuntimeError"
  by (simp add: fit_acf_def failing_fit_lib_def)

lemma get_diag_stats_124:
  "get_diag_stats failing_fit_lib [Fin 1, Fin 2, Fin 4] dt (5 / 3) True =
         Inr [''std'' \<mapsto> PFloat (np_std [Fin 1, Fin 2, Fin 4]),
              ''min'' \<mapsto> PFloat (Fin 1),
              ''ks'' \<mapsto> PFloat (Fin 0),
              ''anderson'' \<mapsto> PFloat (Fin 0),
              ''lag1'' \<mapsto> PFloat (Fin (- 1 / 42)),
              ''lag2'' \<mapsto> PFloat (Fin (- 10 / 21)),
              ''fit_t_d'' \<mapsto> PFloat NaN,
              ''fit_A'' \<mapsto> PFloat NaN,
              ''fit_W'' \<mapsto> PFloat NaN]"
proof -
  have len: "3 \<le> length [Fin 1, Fin 2, Fin 4]" by simp
  show ?thesis
    using get_diag_stats_runtime_error [OF np_min_124 autocorr_124 len failing_fit, of dt]
    by (simp add: failing_fit_lib_def)
qed

lemma autocorr_2020:
  "autocorr [Fin 2, Fin 0, Fin 2, Fin 0] False = Inr [Fin 1, Fin (- (3 / 4)), Fin (1 / 2), Fin (- (1 / 4))]"
  by code_simp

lemma np_min_2020: "np_min [Fin 2, Fin 0, Fin 2, Fin 0] = Inr (Fin 0)"
  by code_simp

lemma np_std_2020: "np_std [Fin 2, Fin 0, Fin 2, Fin 0] = Fin 1"
  by (simp add: np_std_def np_mean_def fsum_def fsub_def)


section \<open>Properties of the spectral synthesizer\<close>


lemma foldl_fadd_NaN: "foldl fadd NaN xs = NaN"
  by (induction xs) simp_all

lemma foldl_fadd_has_NaN: "NaN \<in> set xs \<Longrightarrow> foldl fadd a xs = NaN"
proof (induction xs arbitrary: a)
  case Nil
  then show ?case by simp
next
  case (Cons x xs)
  show ?case
  proof (cases "x = NaN")
    case True
    then have "fadd a x = NaN" by (cases a) simp_all
    then show ?thesis by (simp add: foldl_fadd_NaN)
  next
    case False
    with Cons show ?thesis by simp
  qed
qed

lemma fsum_has_NaN: "NaN \<in> set xs \<Longrightarrow> fsum xs = NaN"
  by (simp add: fsum_def foldl_fadd_has_NaN)







lemma cmul_NaN_left: "cmul (NaN, NaN) (Fin c, Fin d) = (NaN, NaN)"
  by (simp add: fsub_def)












section \<open>Properties of the Markov-chain synthesizer\<close>

lemma fmul_NaN_right: "fmul x NaN = NaN"
  by (cases x) simp_all

lemma fadd_NaN_right: "fadd x NaN = NaN"
  by (cases x) simp_all

lemma fdiv_NaN_right: "fdiv x NaN = NaN"
  by (cases x) simp_all

lemma argmin_loop_less: "best < i \<Longrightarrow> argmin_loop xs i best bv < i + length xs"
proof (induction xs arbitrary: i best bv)
  case Nil
  then show ?case by simp
next
  case (Cons x xs)
  have a: "argmin_loop xs (Suc i) i x < Suc i + length xs"
    by (rule Cons.IH) simp
  have b: "argmin_loop xs (Suc i) best bv < Suc i + length xs"
    by (rule Cons.IH) (use Cons.prems in simp)
  from a b Cons.prems show ?case by simp
qed

lemma list_all_update:
  "list_all P xs \<Longrightarrow> P x \<Longrightarrow> list_all P (xs[i := x])"
  using set_update_subset_insert [of xs i x] by (auto simp: list_all_iff)

lemma np_argmin_less: "np_argmin xs = Inr k \<Longrightarrow> k < length xs"
proof (cases xs)
  case Nil
  assume "np_argmin xs = Inr k"
  with Nil show ?thesis by (simp add: np_argmin_def)
next
  case (Cons x ys)
  assume "np_argmin xs = Inr k"
  with Cons have "k = argmin_loop ys 1 0 x" by (simp add: np_argmin_def)
  moreover have "argmin_loop ys 1 0 x < 1 + length ys" by (rule argmin_loop_less) simp
  ultimately show ?thesis using Cons by simp
qed

lemma find_nearest_less: "find_nearest arr v = Inr k \<Longrightarrow> k < length arr"
  unfolding find_nearest_def by (drule np_argmin_less) simp

lemma np_choice_less: "np_choice n p g = (Inr k, g') \<Longrightarrow> k < n"
  by (auto simp: np_choice_def Let_def split: if_splits prod.splits)

lemma chain_indices:
  "chain lib grid ac_arr steps r i ts_idx g = (Return out, g') \<Longrightarrow>
   list_all (\<lambda>j. j < steps) ts_idx \<Longrightarrow> list_all (\<lambda>j. j < steps) out"
proof (induction r arbitrary: i ts_idx g)
  case 0
  then show ?case by simp
next
  case (Suc r)
  from Suc.prems(1) obtain ac where ac: "py_index ac_arr 1 = Inr ac"
    by (cases "py_index ac_arr 1") simp_all
  let ?raw = "bpdf lib (grid ! (ts_idx ! (i - 1))) grid ac"
  let ?p = "map (\<lambda>x. fdiv x (fsum ?raw)) ?raw"
  obtain res g1 where ch: "np_choice steps ?p g = (res, g1)" by (cases "np_choice steps ?p g")
  with Suc.prems(1) ac obtain k where k: "res = Inr k"
    by (cases res) (simp_all add: Let_def)
  with ch have "k < steps" by (auto dest: np_choice_less)
  with Suc.prems(2) have inv: "list_all (\<lambda>j. j < steps) (ts_idx[i := k])"
    by (simp add: list_all_update)
  from Suc.prems(1) ac ch k
  have "chain lib grid ac_arr steps r (Suc i) (ts_idx[i := k]) g1 = (Return out, g')"
    by (simp add: Let_def)
  from Suc.IH [OF this inv] show ?case .
qed

lemma linspace_open_nth:
  assumes "k < steps"
  shows "np_linspace (Fin 0) (Fin m) steps False ! k = Fin (real k * (m / real steps))"
  using assms by (simp add: np_linspace_def Let_def fsub_def)

lemma linspace_open_range:
  assumes "k < steps" "0 < m"
  shows "0 \<le> real k * (m / real steps) \<and> real k * (m / real steps) < m"
proof -
  from assms have s: "0 < real steps" by simp
  have "real k * (m / real steps) = m * (real k / real steps)" by simp
  moreover have "real k / real steps < 1" using assms s by simp
  moreover have "0 \<le> real k / real steps" by simp
  ultimately show ?thesis using assms(2)
    by (metis mult.right_neutral mult_less_cancel_left_pos mult_nonneg_nonneg less_imp_le)
qed

lemma chain_length:
  "chain lib grid ac_arr steps r i ts_idx g = (Return out, g') \<Longrightarrow> length out = length ts_idx"
proof (induction r arbitrary: i ts_idx g)
  case 0
  then show ?case by simp
next
  case (Suc r)
  from Suc.prems obtain ac where ac: "py_index ac_arr 1 = Inr ac"
    by (cases "py_index ac_arr 1") simp_all
  let ?raw = "bpdf lib (grid ! (ts_idx ! (i - 1))) grid ac"
  let ?p = "map (\<lambda>x. fdiv x (fsum ?raw)) ?raw"
  obtain res g1 where ch: "np_choice steps ?p g = (res, g1)" by (cases "np_choice steps ?p g")
  with Suc.prems ac obtain k where k: "res = Inr k"
    by (cases res) (simp_all add: Let_def)
  from Suc.prems ac ch k
  have "chain lib grid ac_arr steps r (Suc i) (ts_idx[i := k]) g1 = (Return out, g')"
    by (simp add: Let_def)
  from Suc.IH [OF this] show ?case by simp
qed

lemma get_ts_pdf_grid:
  assumes ret: "get_ts_pdf lib t_d dt num_samples max_g steps g = Some (Return Y, g')"
  shows "length Y = num_samples"
    and "list_all (\<lambda>y. y \<in> set (np_linspace (Fin 0) max_g steps False)) Y"
proof -
  let ?grid = "np_linspace (Fin 0) max_g steps False"
  let ?ac = "map (\<lambda>x. gaussian lib x (Fin 0) (fdiv (Fin (t_d / dt)) (hwem_m lib))) (arange 0 steps)"
  from ret have dt: "dt \<noteq> 0" by (auto simp: get_ts_pdf_def split: if_splits)
  from ret dt obtain init_g g1 where
    di: "draw_init max_g (fadd max_g (Fin 1)) g = Some (init_g, g1)"
    by (auto simp: get_ts_pdf_def Let_def split: option.splits)
  from ret dt di obtain k where k: "find_nearest ?grid init_g = Inr k"
    by (cases "find_nearest ?grid init_g") (auto simp: get_ts_pdf_def Let_def)
  from ret dt di k have n: "num_samples \<noteq> 0"
    by (auto simp: get_ts_pdf_def Let_def split: if_splits)
  obtain res g2 where
    ch: "chain lib ?grid ?ac steps (num_samples - 1) 1 ((replicate num_samples 0)[0 := k]) g1 = (res, g2)"
    by (cases "chain lib ?grid ?ac steps (num_samples - 1) 1 ((replicate num_samples 0)[0 := k]) g1")
  from ret dt di k n ch obtain ts_idx where res: "res = Return ts_idx"
    and Y: "Y = map (\<lambda>j. ?grid ! j) ts_idx"
    by (cases res) (auto simp: get_ts_pdf_def Let_def)
  have len: "length ?grid = steps" by (simp add: np_linspace_def Let_def)
  from k have ks: "k < steps" using find_nearest_less len by fastforce
  then have "list_all (\<lambda>j. j < steps) ((replicate num_samples 0)[0 := k])"
    by (intro list_all_update) (simp_all add: list_all_iff)
  with ch res have idx: "list_all (\<lambda>j. j < steps) ts_idx"
    using chain_indices by blast
  from ch res have "length ts_idx = length ((replicate num_samples 0)[0 := k])"
    using chain_length by blast
  then show "length Y = num_samples" by (simp add: Y)
  show "list_all (\<lambda>y. y \<in> set ?grid) Y"
    unfolding Y list_all_iff
  proof
    fix y assume "y \<in> set (map (\<lambda>j. ?grid ! j) ts_idx)"
    then obtain j where j: "j \<in> set ts_idx" "y = ?grid ! j" by auto
    with idx have js: "j < steps" by (simp add: list_all_iff)
    with j len show "y \<in> set ?grid" by simp
  qed
qed

lemma linspace_grid_in_range:
  assumes "0 < m"
  shows "list_all (\<lambda>x. fl_le (Fin 0) x \<and> fl_less x (Fin m)) (np_linspace (Fin 0) (Fin m) steps False)"
proof -
  let ?grid = "np_linspace (Fin 0) (Fin m) steps False"
  have len: "length ?grid = steps" by (simp add: np_linspace_def Let_def)
  have "fl_le (Fin 0) (?grid ! k) \<and> fl_less (?grid ! k) (Fin m)" if "k < steps" for k
    using linspace_open_nth [OF that, of m] linspace_open_range [OF that assms] by auto
  then show ?thesis
    unfolding list_all_length len by blast
qed

lemma fadd_nonfinite_left: "\<not> is_finite a \<Longrightarrow> \<not> is_finite (fadd a x)"
  by (cases a; cases x) simp_all

lemma fadd_nonfinite_right: "\<not> is_finite x \<Longrightarrow> \<not> is_finite (fadd a x)"
  by (cases a; cases x) simp_all

lemma foldl_fadd_nonfinite_acc: "\<not> is_finite a \<Longrightarrow> \<not> is_finite (foldl fadd a xs)"
  by (induction xs arbitrary: a) (simp_all add: fadd_nonfinite_left)

lemma foldl_fadd_nonfinite:
  "list_ex (\<lambda>x. \<not> is_finite x) xs \<Longrightarrow> \<not> is_finite (foldl fadd a xs)"
proof (induction xs arbitrary: a)
  case Nil
  then show ?case by simp
next
  case (Cons x xs)
  show ?case
  proof (cases "is_finite x")
    case True
    with Cons show ?thesis by simp
  next
    case False
    then have "\<not> is_finite (fadd a x)" by (rule fadd_nonfinite_right)
    then show ?thesis by (simp add: foldl_fadd_nonfinite_acc)
  qed
qed

lemma fdiv_nonfinite: "\<not> is_finite x \<Longrightarrow> \<not> is_finite s \<Longrightarrow> fdiv x s = NaN"
  by (cases x; cases s) simp_all

lemma fsum_all_zero: "list_all (\<lambda>x. x = Fin 0) xs \<Longrightarrow> fsum xs = Fin 0"
  unfolding fsum_def by (induction xs) simp_all

lemma degenerate_pmf_has_NaN:
  assumes "raw_p \<noteq> []"
    and "list_all (\<lambda>x. x = Fin 0) raw_p \<or> list_ex (\<lambda>x. \<not> is_finite x) raw_p"
  shows "NaN \<in> set (map (\<lambda>x. fdiv x (fsum raw_p)) raw_p)"
  using assms(2)
proof
  assume z: "list_all (\<lambda>x. x = Fin 0) raw_p"
  then have s: "fsum raw_p = Fin 0" by (rule fsum_all_zero)
  from assms(1) obtain x where x: "x \<in> set raw_p" by (cases raw_p) auto
  with z have "x = Fin 0" by (simp add: list_all_iff)
  then have "fdiv x (fsum raw_p) = NaN" by (simp add: s inf_of_sign_def)
  with x show ?thesis by force
next
  assume e: "list_ex (\<lambda>x. \<not> is_finite x) raw_p"
  then have s: "\<not> is_finite (fsum raw_p)" by (simp add: fsum_def foldl_fadd_nonfinite)
  from e obtain x where x: "x \<in> set raw_p" "\<not> is_finite x" by (auto simp: list_ex_iff)
  with s have "fdiv x (fsum raw_p) = NaN" by (simp add: fdiv_nonfinite)
  with x show ?thesis by force
qed

lemma np_choice_NaN: "NaN \<in> set p \<Longrightarrow> np_choice n p g = (Inl ValueError, g)"
  by (simp add: np_choice_def fsum_has_NaN)

lemma chain_degenerate:
  assumes ac: "py_index ac_arr 1 = Inr ac"
    and raw: "raw_p = bpdf lib (grid ! (ts_idx ! (i - 1))) grid ac"
    and ne: "raw_p \<noteq> []"
    and deg: "list_all (\<lambda>x. x = Fin 0) raw_p \<or> list_ex (\<lambda>x. \<not> is_finite x) raw_p"
  shows "chain lib grid ac_arr steps (Suc r) i ts_idx g = (SysExit [i] 1, g)"
proof -
  have "np_choice steps (map (\<lambda>x. fdiv x (fsum raw_p)) raw_p) g = (Inl ValueError, g)"
    using degenerate_pmf_has_NaN [OF ne deg] by (rule np_choice_NaN)
  then show ?thesis using ac raw by (simp add: Let_def)
qed

lemma bessel_arg_NaN: "bessel_arg NaN g ac = NaN"
  by (simp add: bessel_arg_def fmul_NaN_right)

lemma bpdf_NaN: "bpdf lib NaN g2 ac = map (\<lambda>_. NaN) g2"
proof -
  have a: "bpdf_asymptotic NaN g ac = NaN" for g
    by (simp add: bpdf_asymptotic_def fmul_NaN_right)
  have c: "bpdf_closed NaN g ac i = NaN" for g i
    by (simp add: bpdf_closed_def fmul_NaN_right)
  have "map2 (\<lambda>g i. bpdf_closed NaN g ac i) g2 (map (\<lambda>g. i0 lib (bessel_arg NaN g ac)) g2)
        = map (\<lambda>_. NaN) g2"
    by (simp add: c map2_map_map [where h = "\<lambda>g i. NaN" and f = id, simplified] zip_map2 zip_same_conv_map)
  then show ?thesis by (simp add: bpdf_def Let_def a)
qed

lemma draw_init_stop: "\<not> fl_less max_g init_g \<Longrightarrow> draw_init max_g init_g g = Some (init_g, g)"
  by (subst draw_init.simps) simp

lemma get_ts_pdf_infinite_cutoff:
  assumes "dt \<noteq> 0" "2 \<le> num_samples" "2 \<le> steps"
  shows "get_ts_pdf lib t_d dt num_samples PInf steps g = Some (SysExit [1] 1, g)"
proof -
  let ?grid = "np_linspace (Fin 0) PInf steps False"
  let ?ac = "map (\<lambda>x. gaussian lib x (Fin 0) (fdiv (Fin (t_d / dt)) (hwem_m lib))) (arange 0 steps)"
  let ?idx = "(replicate num_samples 0)[0 := 0]"
  have len: "length ?grid = steps" by (simp add: np_linspace_def Let_def)
  have g0: "?grid ! 0 = NaN"
    using assms(3) by (simp add: np_linspace_def Let_def fsub_def inf_of_sign_def)
  have ne: "?grid \<noteq> []" using len assms(3) by auto
  have di: "draw_init PInf (fadd PInf (Fin 1)) g = Some (PInf, g)"
    using draw_init_stop [of PInf PInf g] by simp
  have fn: "find_nearest ?grid PInf = Inr 0"
  proof -
    from ne g0 obtain ys where "?grid = NaN # ys" by (cases ?grid) auto
    then show ?thesis by (cases ys) (simp_all add: find_nearest_def np_argmin_def fsub_def)
  qed
  have ac: "py_index ?ac 1 = Inr (?ac ! 1)"
    using assms(3) by (simp add: py_index_def arange_def)
  have i0: "?idx ! (1 - 1) = 0" using assms(2) by simp
  obtain r where r: "num_samples - 1 = Suc r" using assms(2) by (cases "num_samples - 1") auto
  have "chain lib ?grid ?ac steps (Suc r) 1 ?idx g = (SysExit [1] 1, g)"
  proof (rule chain_degenerate [OF ac refl])
    show "bpdf lib (?grid ! (?idx ! (1 - 1))) ?grid (?ac ! 1) \<noteq> []"
      using ne by (simp only: i0 g0 bpdf_NaN) simp
    show "list_all (\<lambda>x. x = Fin 0) (bpdf lib (?grid ! (?idx ! (1 - 1))) ?grid (?ac ! 1)) \<or>
          list_ex (\<lambda>x. \<not> is_finite x) (bpdf lib (?grid ! (?idx ! (1 - 1))) ?grid (?ac ! 1))"
      using ne by (simp only: i0 g0 bpdf_NaN) (cases ?grid, simp_all)
  qed
  then show ?thesis
    using assms di fn r by (simp add: get_ts_pdf_def Let_def)
qed


lemma draw_init_once:
  assumes "fl_less max_g init_g" "\<not> fl_less max_g (Fin (g 0))"
  shows "draw_init max_g init_g g = Some (Fin (g 0), (\<lambda>i. g (Suc i)))"
  using assms by (subst draw_init.simps) (simp add: draw_def draw_init_stop)

lemma grid5: "np_linspace (Fin 0) (Fin 5) 5 False = [Fin 0, Fin 1, Fin 2, Fin 3, Fin 4]"
  by code_simp

lemma nearest_low: "find_nearest [Fin 0, Fin 1, Fin 2, Fin 3, Fin 4] (Fin (1 / 10)) = Inr 0"
  by code_simp

lemma nearest_mid: "find_nearest [Fin 0, Fin 1, Fin 2, Fin 3, Fin 4] (Fin (23 / 10)) = Inr 2"
  by code_simp

lemma get_ts_pdf_single:
  assumes "dt \<noteq> 0"
    and "draw_init max_g (fadd max_g (Fin 1)) g = Some (init_g, g1)"
    and "find_nearest (np_linspace (Fin 0) max_g steps False) init_g = Inr k"
  shows "get_ts_pdf lib t_d dt 1 max_g steps g =
         Some (Return [np_linspace (Fin 0) max_g steps False ! k], g1)"
  using assms by (simp add: get_ts_pdf_def Let_def)

lemma get_ts_pdf_nan_cutoff:
  assumes "dt \<noteq> 0" "1 \<le> steps"
  shows "get_ts_pdf lib t_d dt 1 PInf steps g = Some (Return [NaN], g)"
proof -
  let ?grid = "np_linspace (Fin 0) PInf steps False"
  have len: "length ?grid = steps" by (simp add: np_linspace_def Let_def)
  have g0: "?grid ! 0 = NaN"
    using assms(2) by (simp add: np_linspace_def Let_def fsub_def inf_of_sign_def)
  have ne: "?grid \<noteq> []" using len assms(2) by auto
  have di: "draw_init PInf (fadd PInf (Fin 1)) g = Some (PInf, g)"
    using draw_init_stop [of PInf PInf g] by simp
  have fn: "find_nearest ?grid PInf = Inr 0"
  proof -
    from ne g0 obtain ys where "?grid = NaN # ys" by (cases ?grid) auto
    then show ?thesis by (cases ys) (simp_all add: find_nearest_def np_argmin_def fsub_def)
  qed
  from get_ts_pdf_single [OF assms(1) di fn, of lib t_d] show ?thesis
    by (simp only: g0)
qed

lemma run_low:
  "get_ts_pdf exact_lib 30 1 1 (Fin 5) 5 (\<lambda>_. 1 / 10) = Some (Return [Fin 0], (\<lambda>_. 1 / 10))"
proof -
  have "draw_init (Fin 5) (fadd (Fin 5) (Fin 1)) (\<lambda>_. 1 / 10) = Some (Fin (1 / 10), (\<lambda>_. 1 / 10))"
    using draw_init_once [of "Fin 5" "Fin 6" "\<lambda>_. 1 / 10"] by simp
  from get_ts_pdf_single [OF _ this, of 1 5 0 exact_lib 30] show ?thesis
    by (simp add: grid5 nearest_low)
qed

lemma run_mid:
  "get_ts_pdf exact_lib 30 1 1 (Fin 5) 5 (\<lambda>_. 23 / 10) = Some (Return [Fin 2], (\<lambda>_. 23 / 10))"
proof -
  have "draw_init (Fin 5) (fadd (Fin 5) (Fin 1)) (\<lambda>_. 23 / 10) = Some (Fin (23 / 10), (\<lambda>_. 23 / 10))"
    using draw_init_once [of "Fin 5" "Fin 6" "\<lambda>_. 23 / 10"] by simp
  from get_ts_pdf_single [OF _ this, of 1 5 2 exact_lib 30] show ?thesis
    by (simp add: grid5 nearest_mid)
qed

lemma bessel_i0_zero: "bessel_i0 0 = 1"
proof -
  have "(\<lambda>k. (0 / 2 :: real) ^ (2 * k) / (fact k)\<^sup>2) = (\<lambda>k. if k = 0 then 1 else 0)"
    by (rule ext) simp
  then have "bessel_i0 0 = (\<Sum>k. if k = 0 then 1 else (0 :: real))"
    by (simp add: bessel_i0_def)
  also have "\<dots> = 1"
    using suminf_finite [of "{0}" "\<lambda>k. if k = 0 then 1 else (0 :: real)"] by simp
  finally show ?thesis .
qed

lemma np_choice_two_up:
  assumes "0 \<le> p0" "0 \<le> p1" "p0 + p1 = 1" "p0 \<le> g 0" "g 0 < 1"
  shows "np_choice 2 [Fin p0, Fin p1] g = (Inr 1, (\<lambda>i. g (Suc i)))"
  using assms by (simp add: np_choice_def fsum_def fsub_def choice_atol_def draw_def)

lemma grid2: "np_linspace (Fin 0) (Fin 2) 2 False = [Fin 0, Fin 1]"
  by code_simp

lemma nearest2: "find_nearest [Fin 0, Fin 1] (Fin (1 / 4)) = Inr 0"
  by code_simp

lemma ac_arr2:
  "map (\<lambda>x. gaussian exact_lib x (Fin 0) (fdiv (Fin 1) (hwem_m exact_lib))) (arange 0 2)
   = [Fin 1, Fin (exp (- 1))]"
proof -
  have "arange 0 2 = [Fin 0, Fin 1]" by code_simp
  then show ?thesis
    by (simp add: exact_lib_def gaussian_exact_def fsub_def)
qed

lemma bpdf_from_zero:
  fixes a :: real
  assumes "a < 1"
  shows "bpdf exact_lib (Fin 0) [Fin 0, Fin 1] (Fin a) =
         [Fin (1 / (1 - a)), Fin (1 / (1 - a) * exp (- 1 / (1 - a)))]"
  using assms
  by (simp add: bpdf_def bessel_arg_def bpdf_closed_def exact_lib_def fsub_def bessel_i0_zero)

lemma share_up:
  fixes c r :: real
  assumes "0 < c" "0 < r" "c \<le> 9 * r"
  shows "c / (c + r) \<le> 9 / 10"
proof -
  from assms have p: "0 < c + r" by linarith
  have q: "c * 10 \<le> 9 * (c + r)" using assms by (simp add: algebra_simps)
  show ?thesis using p q by (simp add: divide_le_eq)
qed

lemma exp_ninth: "1 / 9 \<le> exp (- 1 / (1 - exp (- 1 :: real)))"
proof -
  let ?a = "exp (- 1 :: real)"
  have e2: "(2 :: real) \<le> exp 1" using exp_ge_add_one_self [of 1] by simp
  have "?a = 1 / exp 1" by (simp add: exp_minus inverse_eq_divide)
  also have "\<dots> \<le> 1 / 2" using e2 by (simp add: field_simps)
  finally have a: "?a \<le> 1 / 2" .
  then have d: "1 / 2 \<le> 1 - ?a" by simp
  then have "1 / (1 - ?a) \<le> 2" by (simp add: field_simps)
  then have "- 2 \<le> - 1 / (1 - ?a)" by simp
  then have "exp (- 2 :: real) \<le> exp (- 1 / (1 - ?a))" by simp
  moreover have "1 / 9 \<le> exp (- 2 :: real)"
  proof -
    have "exp (2 :: real) = exp 1 * exp 1" using exp_add [of 1 "1 :: real"] by simp
    also have "\<dots> \<le> 3 * 3" using exp_le exp_ge_zero by (intro mult_mono) simp_all
    finally have "exp (2 :: real) \<le> 9" by simp
    then have "1 / 9 \<le> 1 / exp (2 :: real)" by (simp add: field_simps)
    then show ?thesis by (simp add: exp_minus inverse_eq_divide)
  qed
  ultimately show ?thesis by linarith
qed

lemma shares_sum:
  fixes c r :: real
  assumes "0 < c + r"
  shows "c / (c + r) + r / (c + r) = 1"
  using assms by (simp add: add_divide_distrib [symmetric])

lemma run_two_up:
  "get_ts_pdf exact_lib 1 1 2 (Fin 2) 2 (\<lambda>i. if i = 0 then 1 / 4 else 9 / 10)
     = Some (Return [Fin 0, Fin 1], (\<lambda>_. 9 / 10))"
proof -
  let ?g = "\<lambda>i :: nat. if i = 0 then 1 / 4 else 9 / 10 :: real"
  let ?h = "\<lambda>_ :: nat. 9 / 10 :: real"
  let ?a = "exp (- 1) :: real"
  let ?c = "1 / (1 - ?a)"
  let ?r1 = "?c * exp (- 1 / (1 - ?a))"
  have a1: "?a < 1" by simp
  then have c: "0 < ?c" by simp
  have r1: "0 < ?r1" using c by simp
  have c9: "?c \<le> 9 * ?r1"
  proof -
    have "?c * 1 \<le> ?c * (9 * exp (- 1 / (1 - ?a)))"
      using c exp_ninth by (intro mult_left_mono) simp_all
    then show ?thesis by (simp only: mult_1_right mult.left_commute)
  qed
  let ?S = "?c + ?r1"
  have S: "0 < ?S" using c r1 by linarith
  have h: "(\<lambda>i. ?g (Suc i)) = ?h" by (rule ext) simp
  have di: "draw_init (Fin 2) (fadd (Fin 2) (Fin 1)) ?g = Some (Fin (1 / 4), ?h)"
    using draw_init_once [of "Fin 2" "Fin 3" ?g] by (simp add: h)
  have raw: "bpdf exact_lib (Fin 0) [Fin 0, Fin 1] (Fin ?a) = [Fin ?c, Fin ?r1]"
    using bpdf_from_zero [OF a1] .
  have sum: "fsum [Fin ?c, Fin ?r1] = Fin ?S" by (simp add: fsum_def)
  have p: "map (\<lambda>x. fdiv x (Fin ?S)) [Fin ?c, Fin ?r1] = [Fin (?c / ?S), Fin (?r1 / ?S)]"
    using S by simp
  have up: "?c / ?S \<le> 9 / 10"
    using c r1 c9 by (rule share_up)
  have one: "?c / ?S + ?r1 / ?S = 1"
    using S by (rule shares_sum)
  have ch: "np_choice 2 [Fin (?c / ?S), Fin (?r1 / ?S)] ?h = (Inr 1, ?h)"
    using np_choice_two_up [of "?c / ?S" "?r1 / ?S" ?h] c r1 S one up by simp
  have "chain exact_lib [Fin 0, Fin 1] [Fin 1, Fin ?a] 2 (Suc 0) 1 [0, 0] ?h = (Return [0, 1], ?h)"
  proof -
    have idx: "[Fin 0, Fin 1] ! ([0, 0] ! (1 - 1)) = Fin 0" by simp
    have ac: "py_index [Fin 1, Fin ?a] 1 = Inr (Fin ?a)" by (simp add: py_index_def)
    show ?thesis
      by (simp only: chain.simps ac idx sum.case Let_def raw sum p ch prod.case) simp
  qed
  moreover have "(replicate 2 0)[0 := 0] = [0, 0 :: nat]" by code_simp
  ultimately show ?thesis
    using di by (simp add: get_ts_pdf_def Let_def grid2 nearest2 ac_arr2 del: chain.simps)
qed

subsection \<open>The joint density\<close>

lemma bessel_summable: "summable (\<lambda>k. (x / 2 :: real) ^ (2 * k) / (fact k)\<^sup>2)"
proof (rule summable_comparison_test)
  let ?y = "(x / 2)\<^sup>2"
  show "summable (\<lambda>k. inverse (fact k) * ?y ^ k)" by (rule summable_exp)
  show "\<exists>N. \<forall>n\<ge>N. norm ((x / 2) ^ (2 * n) / (fact n)\<^sup>2) \<le> inverse (fact n) * ?y ^ n"
  proof (intro exI allI impI)
    fix n :: nat
    have f: "(1 :: real) \<le> fact n" by (rule fact_ge_1)
    then have "(fact n :: real) \<le> (fact n)\<^sup>2" by (simp add: power2_eq_square)
    then have "inverse ((fact n)\<^sup>2) \<le> inverse (fact n :: real)"
      using f by (intro le_imp_inverse_le) simp_all
    moreover have p: "0 \<le> ?y ^ n" by simp
    ultimately have "inverse ((fact n)\<^sup>2) * ?y ^ n \<le> inverse (fact n) * ?y ^ n"
      by (rule mult_right_mono)
    moreover have "norm ((x / 2) ^ (2 * n) / (fact n)\<^sup>2) = inverse ((fact n)\<^sup>2) * ?y ^ n"
    proof -
      have e: "(x / 2) ^ (2 * n) = ?y ^ n" by (rule power_mult)
      have "0 \<le> ?y ^ n / (fact n)\<^sup>2" by (intro divide_nonneg_nonneg p) simp
      then have "norm (?y ^ n / (fact n)\<^sup>2) = ?y ^ n / (fact n)\<^sup>2" by simp
      also have "\<dots> = inverse ((fact n)\<^sup>2) * ?y ^ n" by (simp only: divide_inverse mult.commute)
      finally show ?thesis by (simp only: e)
    qed
    ultimately show "norm ((x / 2) ^ (2 * n) / (fact n)\<^sup>2) \<le> inverse (fact n) * ?y ^ n"
      by (simp only:)
  qed
qed

lemma bessel_i0_nonneg: "0 \<le> bessel_i0 x"
  unfolding bessel_i0_def by (rule suminf_nonneg [OF bessel_summable]) simp

lemma bessel_arg_real:
  assumes "0 \<le> g1" "0 \<le> r" "0 \<le> ac" "ac < 1"
  shows "bessel_arg (Fin g1) (Fin r) (Fin ac) = Fin (2 * sqrt (g1 * r * ac) / (1 - ac))"
    and "0 \<le> 2 * sqrt (g1 * r * ac) / (1 - ac)"
proof -
  from assms have "0 \<le> g1 * r * ac" by simp
  then have "\<not> g1 * r * ac < 0" by simp
  then show "bessel_arg (Fin g1) (Fin r) (Fin ac) = Fin (2 * sqrt (g1 * r * ac) / (1 - ac))"
    using assms by (simp add: bessel_arg_def fsub_def)
  show "0 \<le> 2 * sqrt (g1 * r * ac) / (1 - ac)" using assms by simp
qed

lemma bpdf_asymptotic_value:
  assumes "0 \<le> g1" "0 \<le> r" "0 \<le> ac" "ac < 1"
  shows "bpdf_asymptotic (Fin g1) (Fin r) (Fin ac) =
         Fin (1 / (1 - ac) * exp ((- (g1 + r) + 2 * sqrt (g1 * r * ac)) / (1 - ac))
              * sqrt (4 * pi * sqrt (g1 * r * ac) / (1 - ac)))"
proof -
  have "0 \<le> 4 * pi * sqrt (g1 * r * ac) / (1 - ac)" using assms by simp
  then have n: "\<not> 4 * pi * sqrt (g1 * r * ac) / (1 - ac) < 0" by simp
  from assms have "0 \<le> g1 * r * ac" by simp
  then have m: "\<not> g1 * r * ac < 0" by simp
  show ?thesis
    using assms n m by (simp add: bpdf_asymptotic_def fsub_def)
qed

lemma bpdf_closed_real:
  assumes "ac < 1"
  shows "bpdf_closed (Fin g1) (Fin r) (Fin ac) (Fin v) =
         Fin (1 / (1 - ac) * exp (- (g1 + r) / (1 - ac)) * v)"
  using assms by (simp add: bpdf_closed_def fsub_def)

lemma factor_algebra:
  fixes K a b s :: real
  assumes "s \<noteq> 0"
  shows "K * (a * b) * s = s * s * (K * a * (b / s))"
  using assms by (simp add: field_simps)

lemma fallback_factor:
  fixes K x e1 e2 :: real
  assumes "0 < x" and "e1 = e2 + x"
  shows "K * exp e1 * sqrt (2 * pi * x) = 2 * pi * x * (K * exp e2 * i0_large_argument x)"
proof -
  let ?s = "sqrt (2 * pi * x)"
  have p: "0 < 2 * pi * x" using assms(1) by simp
  then have "0 < ?s" by (rule real_sqrt_gt_zero)
  then have s: "?s \<noteq> 0" by (metis less_irrefl)
  have sq: "?s * ?s = 2 * pi * x" using p by simp
  have "K * exp e1 * ?s = K * (exp e2 * exp x) * ?s"
    by (simp only: assms(2) exp_add)
  also have "\<dots> = ?s * ?s * (K * exp e2 * (exp x / ?s))"
    using s by (rule factor_algebra)
  finally show ?thesis by (simp only: sq i0_large_argument_def)
qed

lemma exp_1024: "(2::real) ^ 1024 \<le> exp 1024"
proof -
  have "(2::real) \<le> exp 1" using exp_ge_add_one_self [of 1] by simp
  then have "(2::real) ^ 1024 \<le> exp 1 ^ 1024" by (intro power_mono) simp_all
  also have "\<dots> = exp (real 1024 * 1)" by (rule exp_of_nat_mult [symmetric])
  finally show ?thesis by simp
qed

lemma i0_overflowing_large: "1024 \<le> x \<Longrightarrow> i0_overflowing (Fin x) = PInf"
proof -
  assume x: "1024 \<le> x"
  then have "exp 1024 \<le> exp \<bar>x\<bar>" by simp
  with exp_1024 have "\<not> exp \<bar>x\<bar> < 2 ^ 1024" by linarith
  then show ?thesis by simp
qed

lemma i0_overflowing_zero: "i0_overflowing (Fin 0) = Fin 1"
  by (simp add: bessel_i0_zero)

lemma sqrt_sample: "sqrt (4 * 4 * (998001 / 1000000)) = 3996 / 1000"
  by (rule real_sqrt_unique) (simp_all add: power2_eq_square)

lemma bpdf_fallback_value:
  fixes g1 r ac :: real
  assumes g: "0 < g1" "0 < r" and ac: "0 < ac" "ac < 1"
    and x: "x = 2 * sqrt (g1 * r * ac) / (1 - ac)"
  shows "bpdf_asymptotic (Fin g1) (Fin r) (Fin ac) =
         Fin (2 * pi * x * (1 / (1 - ac) * exp (- (g1 + r) / (1 - ac)) * i0_large_argument x))"
    and "0 < x"
proof -
  have pos: "0 < g1 * r * ac" using g ac by simp
  then have "0 < sqrt (g1 * r * ac)" by simp
  then show xp: "0 < x" using ac by (simp add: x)
  have e: "(- (g1 + r) + 2 * sqrt (g1 * r * ac)) / (1 - ac) = - (g1 + r) / (1 - ac) + x"
    by (simp add: x add_divide_distrib)
  have s: "4 * pi * sqrt (g1 * r * ac) / (1 - ac) = 2 * pi * x"
    by (simp add: x)
  have "bpdf_asymptotic (Fin g1) (Fin r) (Fin ac) =
        Fin (1 / (1 - ac) * exp ((- (g1 + r) + 2 * sqrt (g1 * r * ac)) / (1 - ac))
              * sqrt (4 * pi * sqrt (g1 * r * ac) / (1 - ac)))"
    using g ac by (intro bpdf_asymptotic_value) simp_all
  also have "\<dots> = Fin (1 / (1 - ac) * exp (- (g1 + r) / (1 - ac) + x) * sqrt (2 * pi * x))"
    by (simp only: e s)
  also have "1 / (1 - ac) * exp (- (g1 + r) / (1 - ac) + x) * sqrt (2 * pi * x)
           = 2 * pi * x * (1 / (1 - ac) * exp (- (g1 + r) / (1 - ac)) * i0_large_argument x)"
    using xp by (rule fallback_factor) simp
  finally show "bpdf_asymptotic (Fin g1) (Fin r) (Fin ac) =
         Fin (2 * pi * x * (1 / (1 - ac) * exp (- (g1 + r) / (1 - ac)) * i0_large_argument x))" .
qed

lemma sample_arg: "2 * sqrt (4 * 4 * (998001 / 1000000)) / (1 - 998001 / 1000000) = (7992000 / 1999 :: real)"
  by (simp only: sqrt_sample) simp
section \<open>The specification against the code\<close>

subsection \<open>Degenerate input\<close>

text \<open>
  Claim C2, as the code has it. The estimator has no error for a degenerate series: line 24
  divides by entry 0 of the array whatever it is. Whenever the value that the code has
  computed for entry 0 before the division (the lag-0 inner product, or the lag-1 inner
  product copied over it under \<open>remove_spike\<close>) is zero, \<open>autocorr\<close> returns normally an
  array of the input's length, every entry of which is the entry before the division over
  zero: entry 0 is NaN (\<open>0/0\<close>) and no entry is finite. This holds whatever NumPy's mean,
  subtraction and inner product compute, so also with their rounding.
\<close>

theorem autocorr_degenerate_returns_nan:
  assumes "acf_raw_on np ts remove_spike = Inr raw"
    and "raw ! 0 = Fin 0"
  shows "autocorr_on np ts remove_spike = Inr (map (\<lambda>x. fdiv x (Fin 0)) raw) \<and>
         length (map (\<lambda>x. fdiv x (Fin 0)) raw) = length ts \<and>
         map (\<lambda>x. fdiv x (Fin 0)) raw ! 0 = NaN \<and>
         list_all (\<lambda>x. \<not> is_finite x) (map (\<lambda>x. fdiv x (Fin 0)) raw)"
  using zero_lag_zero [OF assms] acf_raw_on_Inr(2) [OF assms(1)] by simp

theorem autocorr_degenerate_returns_nan_witness:
  "acf_raw_on range_numpy [Fin 0, Fin 2, Fin 4] True = Inr [Fin 0, Fin 0, Fin (- 4)] \<and>
   autocorr_on range_numpy [Fin 0, Fin 2, Fin 4] True = Inr [NaN, NaN, NInf]"
proof -
  have raw: "acf_raw_on range_numpy [Fin 0, Fin 2, Fin 4] True = Inr [Fin 0, Fin 0, Fin (- 4)]"
    by (simp add: range_numpy_eval)
  show ?thesis
    using raw autocorr_degenerate_returns_nan [OF raw] by (simp add: inf_of_sign_def)
qed

text \<open>
  Claim C2 as stated fails: on the constant series \<open>[1, 1, 1]\<close>, whose mean and centred
  entries are exact in binary64, entry 0 before the division is zero, the estimator raises
  nothing and returns three NaN.
\<close>

theorem autocorr_constant_counterexample:
  "acf_raw_on range_numpy [Fin 1, Fin 1, Fin 1] False = Inr [Fin 0, Fin 0, Fin 0] \<and>
   autocorr_on range_numpy [Fin 1, Fin 1, Fin 1] False = Inr [NaN, NaN, NaN]"
  by (simp add: autocorr_on_def normalize_acf_def range_numpy_eval)

subsection \<open>The zero-lag entry\<close>

text \<open>
  Claim C5, as the code has it. Whenever the estimator's array before the division exists
  and its entry 0 is finite and not zero, the algorithm is the one the claim describes and
  entry 0 of the result is exactly 1: the array has the input's length; entry \<open>k\<close> is the
  inner product of the mean-subtracted series with itself shifted by \<open>k\<close>, lag 0 first;
  under \<open>remove_spike\<close> entry 0 holds the lag-1 value instead; the result is that array
  with every entry divided by its entry 0. The condition is on the value the code has
  computed, not on the series: it holds whatever NumPy's mean, subtraction and inner
  product compute.
\<close>

theorem autocorr_unit_zero_lag:
  assumes "acf_raw_on np ts remove_spike = Inr raw"
    and "raw ! 0 = Fin d" and "d \<noteq> 0"
  shows "length raw = length ts \<and>
         (\<forall>k<length ts. (remove_spike \<longrightarrow> 0 < k) \<longrightarrow>
            raw ! k = np_dot np (drop k (center_on np ts)) (take (length ts - k) (center_on np ts))) \<and>
         (remove_spike \<longrightarrow> raw ! 0 = raw ! 1) \<and>
         autocorr_on np ts remove_spike = Inr (map (\<lambda>x. fdiv x (Fin d)) raw) \<and>
         map (\<lambda>x. fdiv x (Fin d)) raw ! 0 = Fin 1"
  using acf_raw_on_Inr(2,4,5) [OF assms(1)] unit_zero_lag [OF assms] by simp

theorem autocorr_unit_zero_lag_witness:
  "acf_raw_on range_numpy [Fin 3, Fin 1, Fin 1, Fin 3] False = Inr [Fin 4, Fin (- 1), Fin (- 2), Fin 1] \<and>
   autocorr_on range_numpy [Fin 3, Fin 1, Fin 1, Fin 3] False
     = Inr [Fin 1, Fin (- (1 / 4)), Fin (- (1 / 2)), Fin (1 / 4)]"
proof -
  have raw: "acf_raw_on range_numpy [Fin 3, Fin 1, Fin 1, Fin 3] False
             = Inr [Fin 4, Fin (- 1), Fin (- 2), Fin 1]"
    by (simp add: range_numpy_eval)
  show ?thesis
    using raw autocorr_unit_zero_lag [OF raw, of 4] by simp
qed

text \<open>
  Claim C5 as stated fails: the series \<open>[2^520, -2^520]\<close> is not constant and its mean is
  zero; the squares of its entries overflow, so that the array before the division is
  \<open>[inf, -inf]\<close>, entry 0 is not zero, and the result is \<open>[nan, nan]\<close>: entry 0 is not 1.
\<close>

theorem autocorr_unit_zero_lag_counterexample:
  "acf_raw_on range_numpy [Fin (2 ^ 520), Fin (- (2 ^ 520))] False = Inr [PInf, NInf] \<and>
   autocorr_on range_numpy [Fin (2 ^ 520), Fin (- (2 ^ 520))] False = Inr [NaN, NaN]"
proof -
  have raw: "acf_raw_on range_numpy [Fin (2 ^ 520), Fin (- (2 ^ 520))] False = Inr [PInf, NInf]"
    using big_lt big_ge by (intro overflow_pair) simp_all
  then show ?thesis
    by (simp add: autocorr_on_def normalize_acf_def)
qed

subsection \<open>The lag-1 entry under \<open>remove_spike\<close>\<close>

text \<open>
  Claim C10, as the code has it. With \<open>remove_spike\<close> the estimator returns on every
  series of at least two samples, and entries 0 and 1 of the result are the same: the
  lag-1 inner product over itself. They are exactly 1 if that value, as the code has
  computed it, is finite and not zero, and NaN if it is zero, infinite or NaN. This holds
  whatever NumPy's mean, subtraction and inner product compute.
\<close>

theorem autocorr_remove_spike_lag1:
  assumes "2 \<le> length ts"
  shows "\<exists>raw out. acf_raw_on np ts True = Inr raw \<and> autocorr_on np ts True = Inr out \<and>
           length out = length ts \<and>
           raw ! 1 = np_dot np (drop 1 (center_on np ts)) (take (length ts - 1) (center_on np ts)) \<and>
           out ! 0 = (case raw ! 1 of Fin d \<Rightarrow> if d = 0 then NaN else Fin 1 | _ \<Rightarrow> NaN) \<and>
           out ! 1 = (case raw ! 1 of Fin d \<Rightarrow> if d = 0 then NaN else Fin 1 | _ \<Rightarrow> NaN)"
  using assms by (rule spike_lag1)

theorem autocorr_remove_spike_lag1_witness:
  "acf_raw_on range_numpy [Fin 1, Fin 3, Fin 3, Fin 1] True = Inr [Fin (- 1), Fin (- 1), Fin (- 2), Fin 1] \<and>
   (\<exists>out. autocorr_on range_numpy [Fin 1, Fin 3, Fin 3, Fin 1] True = Inr out \<and>
      length out = 4 \<and> out ! 0 = Fin 1 \<and> out ! 1 = Fin 1)"
proof -
  have raw: "acf_raw_on range_numpy [Fin 1, Fin 3, Fin 3, Fin 1] True
             = Inr [Fin (- 1), Fin (- 1), Fin (- 2), Fin 1]"
    by (simp add: range_numpy_eval)
  show ?thesis
    using raw autocorr_remove_spike_lag1 [of "[Fin 1, Fin 3, Fin 3, Fin 1]" range_numpy]
    by auto
qed

text \<open>
  Claim C10 as stated fails: \<open>autocorr\<close> with \<open>remove_spike\<close> returns normally on
  \<open>[0, 1, 2]\<close>, whose lag-1 value is zero, and entry 1 of the result is NaN, not 1.
  Entry 2 is \<open>-1/0\<close>.
\<close>

theorem autocorr_remove_spike_counterexample:
  "acf_raw_on range_numpy [Fin 0, Fin 1, Fin 2] True = Inr [Fin 0, Fin 0, Fin (- 1)] \<and>
   autocorr_on range_numpy [Fin 0, Fin 1, Fin 2] True = Inr [NaN, NaN, NInf]"
  by (simp add: autocorr_on_def normalize_acf_def range_numpy_eval)

subsection \<open>A fit that does not converge\<close>

text \<open>
  Claim C6, as the code has it. When the optimizer does not converge, \<open>curve_fit\<close> raises
  RuntimeError, and \<open>fit_acf\<close>, which has no handler, raises it too: the outcome of the fit
  is the exception, not three NaN. It is \<open>get_diag_stats\<close> that catches the exception and
  goes on with the three parameters set to NaN. For a series of at least three samples it
  returns the record whose fields \<open>std\<close>, \<open>min\<close>, \<open>ks\<close>, \<open>anderson\<close>, \<open>lag1\<close> and \<open>lag2\<close> are
  computed from the series, and whose \<open>fit_t_d\<close>, \<open>fit_A\<close> and \<open>fit_W\<close> are NaN, whether
  \<open>dt\<close> is given or not.
\<close>

theorem get_diag_stats_fit_failure:
  assumes "np_min ts = Inr mn"
    and "autocorr ts False = Inr ac"
    and "3 \<le> length ts"
    and "curve_fit lib (\<lambda>x p. noisy_scint_acf x (p ! 0) (p ! 1) (p ! 2) pow use_triangle)
           (arange 0 (length ac)) ac
           ([Fin 0, Fin 0, Fin 0], [Fin (real (length ac)), Fin 1, Fin 1]) = Inl RuntimeError"
  shows "fit_acf lib ac pow use_triangle False = Inl RuntimeError \<and>
         get_diag_stats lib ts dt pow use_triangle =
         Inr [''std'' \<mapsto> PFloat (np_std ts),
              ''min'' \<mapsto> PFloat mn,
              ''ks'' \<mapsto> PFloat (kstest_expon lib ts),
              ''anderson'' \<mapsto> PFloat (anderson_expon lib ts),
              ''lag1'' \<mapsto> PFloat (ac ! 1),
              ''lag2'' \<mapsto> PFloat (ac ! 2),
              ''fit_t_d'' \<mapsto> PFloat NaN,
              ''fit_A'' \<mapsto> PFloat NaN,
              ''fit_W'' \<mapsto> PFloat NaN]"
proof -
  have fit: "fit_acf lib ac pow use_triangle False = Inl RuntimeError"
    using assms(4) by (simp add: fit_acf_def)
  with assms(1-3) show ?thesis
    by (simp only: get_diag_stats_runtime_error)
qed

text \<open>
  The series \<open>[2, 0, 2, 0]\<close> has standard deviation 1, minimum 0 (not its first sample)
  and autocorrelation \<open>[1, -3/4, 1/2, -1/4]\<close>.
\<close>

theorem get_diag_stats_fit_failure_witness:
  "fit_acf failing_fit_lib [Fin 1, Fin (- (3 / 4)), Fin (1 / 2), Fin (- (1 / 4))] (5 / 3) True False
     = Inl RuntimeError \<and>
   get_diag_stats failing_fit_lib [Fin 2, Fin 0, Fin 2, Fin 0] (Some (Fin 2)) (5 / 3) True =
         Inr [''std'' \<mapsto> PFloat (Fin 1),
              ''min'' \<mapsto> PFloat (Fin 0),
              ''ks'' \<mapsto> PFloat (Fin 0),
              ''anderson'' \<mapsto> PFloat (Fin 0),
              ''lag1'' \<mapsto> PFloat (Fin (- (3 / 4))),
              ''lag2'' \<mapsto> PFloat (Fin (1 / 2)),
              ''fit_t_d'' \<mapsto> PFloat NaN,
              ''fit_A'' \<mapsto> PFloat NaN,
              ''fit_W'' \<mapsto> PFloat NaN]"
proof -
  have len: "3 \<le> length [Fin 2, Fin 0, Fin 2, Fin 0]" by simp
  have fit: "curve_fit failing_fit_lib
               (\<lambda>x p. noisy_scint_acf x (p ! 0) (p ! 1) (p ! 2) (5 / 3) True)
               (arange 0 (length [Fin 1, Fin (- (3 / 4)), Fin (1 / 2), Fin (- (1 / 4))]))
               [Fin 1, Fin (- (3 / 4)), Fin (1 / 2), Fin (- (1 / 4))]
               ([Fin 0, Fin 0, Fin 0],
                [Fin (real (length [Fin 1, Fin (- (3 / 4)), Fin (1 / 2), Fin (- (1 / 4))])), Fin 1, Fin 1])
             = Inl RuntimeError"
    by (simp add: failing_fit_lib_def)
  show ?thesis
    using get_diag_stats_fit_failure [OF np_min_2020 autocorr_2020 len fit, of "Some (Fin 2)"]
    by (simp add: failing_fit_lib_def np_std_2020)
qed

text \<open>
  Claim C6 as stated fails for the fit: with an optimizer that does not converge, the
  outcome of \<open>fit_acf\<close> on the autocorrelation \<open>[1, -3/4, 1/2, -1/4]\<close> is the exception
  RuntimeError, with and without \<open>remove_spike\<close>, and not a triple of NaN.
\<close>

theorem fit_acf_raises_counterexample:
  "fit_acf failing_fit_lib [Fin 1, Fin (- (3 / 4)), Fin (1 / 2), Fin (- (1 / 4))] (5 / 3) True False
     = Inl RuntimeError \<and>
   fit_acf failing_fit_lib [Fin 1, Fin (- (3 / 4)), Fin (1 / 2), Fin (- (1 / 4))] (5 / 3) True True
     = Inl RuntimeError"
  by (simp add: fit_acf_def failing_fit_lib_def)

subsection \<open>The fields of the record\<close>

text \<open>
  Claim C7, as the code has it. The sentinel of \<open>empty_diag_stats\<close> has exactly the twelve
  fields of the DiagnosticRecord, \<open>fchans\<close> set to the argument and every other field
  \<open>None\<close>. A record returned by \<open>get_diag_stats\<close> has exactly nine of them: it sets none of
  \<open>fchans\<close>, \<open>l\<close> and \<open>r\<close>.
\<close>

theorem diag_record_fields:
  "dom (empty_diag_stats fchans) = record_fields \<and>
   empty_diag_stats fchans ''fchans'' = Some (PInt fchans) \<and>
   (\<forall>k \<in> record_fields - {''fchans''}. empty_diag_stats fchans k = Some PNone) \<and>
   (\<forall>d. get_diag_stats lib ts dt pow use_triangle = Inr d \<longrightarrow>
      dom d = record_fields - {''fchans'', ''l'', ''r''})"
proof -
  have "record_fields - {''fchans'', ''l'', ''r''} = stats_fields"
    by (auto simp: record_fields_def stats_fields_def)
  moreover have "\<forall>k \<in> record_fields - {''fchans''}. empty_diag_stats fchans k = Some PNone"
    by (auto simp: record_fields_def empty_diag_stats_def)
  moreover have "empty_diag_stats fchans ''fchans'' = Some (PInt fchans)"
    by (simp add: empty_diag_stats_def)
  ultimately show ?thesis
    using dom_empty_diag_stats dom_get_diag_stats by metis
qed

theorem diag_record_fields_witness:
  "map_sum id dom (get_diag_stats failing_fit_lib [Fin 1, Fin 2, Fin 4] None (5 / 3) True)
     = Inr (record_fields - {''fchans'', ''l'', ''r''}) \<and>
   dom (empty_diag_stats 256) = record_fields \<and>
   empty_diag_stats 256 ''fchans'' = Some (PInt 256) \<and>
   empty_diag_stats 256 ''fit_W'' = Some PNone"
proof -
  obtain d where d: "get_diag_stats failing_fit_lib [Fin 1, Fin 2, Fin 4] None (5 / 3) True = Inr d"
    using get_diag_stats_124 by blast
  have w: "''fit_W'' \<in> record_fields - {''fchans''}" by (simp add: record_fields_def)
  from diag_record_fields [of 256 failing_fit_lib "[Fin 1, Fin 2, Fin 4]" None "5 / 3" True] d w
  show ?thesis by auto
qed

text \<open>
  Claim C7 as stated fails for the aggregator: the record it returns on \<open>[1, 2, 4]\<close> has the
  nine statistics fields, which are not the twelve fields of the DiagnosticRecord.
\<close>

theorem diag_record_fields_counterexample:
  "map_sum id dom (get_diag_stats failing_fit_lib [Fin 1, Fin 2, Fin 4] None (5 / 3) True)
     = Inr stats_fields \<and> stats_fields \<noteq> record_fields"
  using dom_get_diag_stats [OF get_diag_stats_124 [of None]] stats_fields_neq
  by (simp add: get_diag_stats_124)

subsection \<open>The square root of the spectrum\<close>




subsection \<open>A degenerate probability vector\<close>

text \<open>
  Claim C1, as the code has it. At any iteration \<open>i\<close> of the loop of lines 69 to 85, when the
  vector that \<open>bpdf\<close> returns is all zero or holds an entry that is not finite, the
  normalised vector holds NaN, \<open>np.random.choice\<close> raises, and the bare \<open>except\<close> prints \<open>i\<close>
  and ends the process with \<open>sys.exit(1)\<close>. No generator state is consumed. The code has no
  DistributionCollapseError.
\<close>

theorem degenerate_pmf_exits:
  assumes "py_index ac_arr 1 = Inr ac"
    and "raw_p = bpdf lib (possible_g ! (ts_idx ! (i - 1))) possible_g ac"
    and "raw_p \<noteq> []"
    and "list_all (\<lambda>x. x = Fin 0) raw_p \<or> list_ex (\<lambda>x. \<not> is_finite x) raw_p"
  shows "chain lib possible_g ac_arr steps (Suc r) i ts_idx g = (SysExit [i] 1, g)"
  using assms by (rule chain_degenerate)

theorem degenerate_pmf_exits_witness:
  "bpdf exact_lib ([NaN, PInf] ! ([0, 0] ! (1 - 1))) [NaN, PInf] (Fin (1 / 2)) = [NaN, NaN] \<and>
   chain exact_lib [NaN, PInf] [Fin 1, Fin (1 / 2)] 2 (Suc 0) 1 [0, 0] ones_rng
     = (SysExit [1] 1, ones_rng)"
proof -
  have raw: "bpdf exact_lib ([NaN, PInf] ! ([0, 0] ! (1 - 1))) [NaN, PInf] (Fin (1 / 2)) = [NaN, NaN]"
    by (simp add: bpdf_NaN)
  have ac: "py_index [Fin 1, Fin (1 / 2)] 1 = Inr (Fin (1 / 2))"
    by (simp add: py_index_def)
  have ne: "[NaN, NaN] \<noteq> []" by simp
  have deg: "list_all (\<lambda>x. x = Fin 0) [NaN, NaN] \<or> list_ex (\<lambda>x. \<not> is_finite x) [NaN, NaN]"
    by simp
  from degenerate_pmf_exits [OF ac raw [symmetric] ne deg, of 2 0 ones_rng] raw
  show ?thesis by simp
qed

text \<open>
  Claim C1 as stated fails: \<open>get_ts_pdf(30, 1, 2, max_g=float('inf'))\<close> builds the grid
  \<open>[nan, inf, ...]\<close>, starts on its entry 0, and in iteration 1 gets a vector of NaN from
  \<open>bpdf\<close>; the call prints 1 and ends the process with status 1.
\<close>

theorem get_ts_pdf_exit_counterexample:
  "get_ts_pdf exact_lib 30 1 2 PInf 1000 ones_rng = Some (SysExit [1] 1, ones_rng)"
  by (rule get_ts_pdf_infinite_cutoff) simp_all

subsection \<open>The generator of the process\<close>

text \<open>
  Claim C3. The code does not meet it: \<open>get_ts_pdf\<close> takes no seed, and what it returns
  depends on the state of the generator of \<open>np.random\<close>. The call
  \<open>get_ts_pdf(30, 1, 1, 5, 5)\<close> returns \<open>[0.0]\<close> when the next exponential variate of that
  generator is 0.1, and \<open>[2.0]\<close> when it is 2.3.
\<close>

theorem get_ts_pdf_global_state:
  "map_option fst (get_ts_pdf exact_lib 30 1 1 (Fin 5) 5 (\<lambda>_. 1 / 10)) = Some (Return [Fin 0]) \<and>
   map_option fst (get_ts_pdf exact_lib 30 1 1 (Fin 5) 5 (\<lambda>_. 23 / 10)) = Some (Return [Fin 2])"
  by (simp only: run_low run_mid option.map fst_conv simp_thms)

subsection \<open>The range of the output\<close>

text \<open>
  Claim C9, as the code has it. A sequence that \<open>get_ts_pdf\<close> returns has \<open>num_samples\<close>
  values, and every one of them is an entry of the grid
  \<open>np.linspace(0, max_g, steps, endpoint=False)\<close>: the first, which \<open>find_nearest\<close> picks,
  and those of the chain, which \<open>np.random.choice\<close> picks. So every value lies in the
  interval from 0 (included) to \<open>max_g\<close> (excluded) whenever every entry of the grid does.
  This holds for every cutoff, every Bessel and Gaussian routine and every state of the
  generator.
\<close>

theorem get_ts_pdf_in_range:
  assumes "get_ts_pdf lib t_d dt num_samples max_g steps g = Some (Return Y, g')"
  shows "length Y = num_samples \<and>
         (\<forall>y \<in> set Y. y \<in> set (np_linspace (Fin 0) max_g steps False)) \<and>
         ((\<forall>x \<in> set (np_linspace (Fin 0) max_g steps False). fl_le (Fin 0) x \<and> fl_less x max_g)
            \<longrightarrow> (\<forall>y \<in> set Y. fl_le (Fin 0) y \<and> fl_less y max_g))"
  using get_ts_pdf_grid [OF assms] by (auto simp: list_all_iff)

text \<open>
  A run of two samples on the grid \<open>[0, 1]\<close> of the cutoff 2: the exponential variate 0.25
  starts the chain on the entry 0, and the uniform variate 0.9 moves it to the entry 1.
\<close>

theorem get_ts_pdf_in_range_witness:
  "get_ts_pdf exact_lib 1 1 2 (Fin 2) 2 (\<lambda>i. if i = 0 then 1 / 4 else 9 / 10)
     = Some (Return [Fin 0, Fin 1], (\<lambda>_. 9 / 10)) \<and>
   np_linspace (Fin 0) (Fin 2) 2 False = [Fin 0, Fin 1] \<and>
   list_all (\<lambda>y. y \<in> set (np_linspace (Fin 0) (Fin 2) 2 False) \<and>
                 fl_le (Fin 0) y \<and> fl_less y (Fin 2)) [Fin 0, Fin 1]"
proof -
  have grid: "list_all (\<lambda>x. fl_le (Fin 0) x \<and> fl_less x (Fin 2)) (np_linspace (Fin 0) (Fin 2) 2 False)"
    by (rule linspace_grid_in_range) simp
  from get_ts_pdf_in_range [OF run_two_up] grid run_two_up grid2 show ?thesis
    by (simp add: list_all_iff)
qed

text \<open>
  Claim C9 as stated fails for a cutoff that is not finite:
  \<open>get_ts_pdf(30, 1, 1, max_g=float('inf'))\<close> builds the grid \<open>[nan, inf, ...]\<close>, draws
  nothing because \<open>inf + 1 > inf\<close> is false, and returns \<open>[nan]\<close>, which is not in the
  interval from 0 to \<open>max_g\<close>.
\<close>

theorem get_ts_pdf_nan_counterexample:
  "get_ts_pdf exact_lib 30 1 1 PInf 5 ones_rng = Some (Return [NaN], ones_rng) \<and>
   \<not> (fl_le (Fin 0) NaN \<and> fl_less NaN PInf)"
proof -
  have "get_ts_pdf exact_lib 30 1 1 PInf 5 ones_rng = Some (Return [NaN], ones_rng)"
    by (rule get_ts_pdf_nan_cutoff) simp_all
  then show ?thesis by simp
qed

subsection \<open>The joint density and its fallback\<close>

text \<open>
  Claim C8. The code does not meet it: the form that line 42 returns when the Bessel factor
  overflows is not the closed form with the large-argument approximation of \<open>I0\<close>. With
  \<open>x\<close> the argument of the Bessel function, that approximation is
  \<open>exp(x) / sqrt(2 pi x)\<close>, and line 42 multiplies \<open>exp(x)\<close> by \<open>sqrt(2 pi x)\<close> where it
  should divide. On \<open>bpdf(4.0, [4.0], 0.998001)\<close> the argument is above 3997, \<open>i0\<close>
  overflows, and the value returned is \<open>2 pi x\<close> times the value of the closed form with
  the approximation, which is more than 15000 times too much.
\<close>

theorem bpdf_fallback_not_asymptotic:
  "\<exists>x v w. bessel_arg (Fin 4) (Fin 4) (Fin (998001 / 1000000)) = Fin x \<and>
     3997 < x \<and>
     i0 overflow_lib (Fin x) = PInf \<and>
     bpdf overflow_lib (Fin 4) [Fin 4] (Fin (998001 / 1000000)) = [Fin v] \<and>
     bpdf_closed (Fin 4) (Fin 4) (Fin (998001 / 1000000)) (Fin (i0_large_argument x)) = Fin w \<and>
     0 < w \<and> v = 2 * pi * x * w \<and> 15000 * w < v"
proof -
  let ?a = "998001 / 1000000 :: real"
  let ?x = "7992000 / 1999 :: real"
  let ?w = "1 / (1 - ?a) * exp (- (4 + 4) / (1 - ?a)) * i0_large_argument ?x"
  let ?v = "2 * pi * ?x * ?w"
  have x: "?x = 2 * sqrt (4 * 4 * ?a) / (1 - ?a)" by (rule sample_arg [symmetric])
  have "bessel_arg (Fin 4) (Fin 4) (Fin ?a) = Fin (2 * sqrt (4 * 4 * ?a) / (1 - ?a))"
    by (rule bessel_arg_real(1)) simp_all
  then have arg: "bessel_arg (Fin 4) (Fin 4) (Fin ?a) = Fin ?x"
    by (simp only: sample_arg)
  have inf: "i0_overflowing (Fin ?x) = PInf"
    by (rule i0_overflowing_large) simp
  have fb: "bpdf_asymptotic (Fin 4) (Fin 4) (Fin ?a) = Fin ?v"
    by (rule bpdf_fallback_value(1) [OF _ _ _ _ x]) simp_all
  have inf': "i0 overflow_lib (Fin ?x) = PInf"
    by (simp only: overflow_lib_def pdf_lib.simps inf)
  have i: "map (\<lambda>g. i0 overflow_lib (bessel_arg (Fin 4) g (Fin ?a))) [Fin 4] = [PInf]"
    by (simp only: list.map arg inf')
  have run: "bpdf overflow_lib (Fin 4) [Fin 4] (Fin ?a) = [Fin ?v]"
    unfolding bpdf_def Let_def i by (simp add: fb)
  have cl: "bpdf_closed (Fin 4) (Fin 4) (Fin ?a) (Fin (i0_large_argument ?x)) = Fin ?w"
    by (rule bpdf_closed_real) simp
  have wp: "0 < ?w" by (simp add: i0_large_argument_def)
  have "15000 < 2 * 2 * ?x" by simp
  also have "2 * 2 * ?x \<le> 2 * pi * ?x" using pi_ge_two by simp
  finally have big: "15000 < 2 * pi * ?x" .
  have "15000 * ?w < ?v" using big wp by (rule mult_strict_right_mono)
  moreover have "3997 < ?x" by simp
  ultimately show ?thesis
    using arg inf' run cl wp by blast
qed

end
